theory Spec2Isabelle
  imports Main "HOL-Library.Word" "HOL-Library.Sublist"
begin

section \<open>The droplet form of \<open>main.go\<close>\<close>

text \<open>
  \<open>main.go\<close> is a Bubble Tea program: a form of four text inputs (name, region, size,
  image) and a create button, whose \<open>Update\<close> function handles one message at a time, and
  a command \<open>dropletCreate\<close> that talks to the DigitalOcean client and reports back with
  one \<open>dropletMsg\<close>. The functions of \<open>main.go\<close> are embedded below under their own names.
  The libraries they call (bubbletea, bubbles, lipgloss, godo, strconv) are not part of
  the repository; each piece of them that the functions use is modelled in a definition
  of its own, marked as such.
\<close>

subsection \<open>Styles (lines 19-29)\<close>

text \<open>
  A lipgloss style, as far as \<open>main.go\<close> builds one: the empty style or a foreground
  colour. How a style renders a string depends on the terminal and is a parameter of the
  functions that render (see \<open>World\<close>).
\<close>

datatype Style = NewStyle | Foreground string

definition placeholderStyle :: Style where
  "placeholderStyle = Foreground ''#99A1B3''"

definition focusedStyle :: Style where
  "focusedStyle = Foreground ''#0080FF''"

definition blurredStyle :: Style where
  "blurredStyle = Foreground ''#5B6987''"

definition cursorStyle :: Style where
  "cursorStyle = focusedStyle"

definition noStyle :: Style where
  "noStyle = NewStyle"

subsection \<open>Keys and messages\<close>

text \<open>
  A key press of bubbletea, and the name \<open>msg.String()\<close> gives it. \<open>KeyRunes\<close> is typed
  text, whose name is the text itself; \<open>KeyNamed\<close> is any other key, carrying its name
  (\<open>''left''\<close>, \<open>''ctrl+a''\<close>, ...). The alt modifier is left out.
\<close>

datatype Key =
    KeyCtrlC | KeyEsc | KeyTab | KeyShiftTab | KeyEnter | KeyUp | KeyDown | KeyBackspace
  | KeyRunes string
  | KeyNamed string

fun Key_String :: "Key \<Rightarrow> string" where
  "Key_String KeyCtrlC = ''ctrl+c''"
| "Key_String KeyEsc = ''esc''"
| "Key_String KeyTab = ''tab''"
| "Key_String KeyShiftTab = ''shift+tab''"
| "Key_String KeyEnter = ''enter''"
| "Key_String KeyUp = ''up''"
| "Key_String KeyDown = ''down''"
| "Key_String KeyBackspace = ''backspace''"
| "Key_String (KeyRunes rs) = rs"
| "Key_String (KeyNamed n) = n"

text \<open>
  The messages \<open>Update\<close> tells apart: a key press, the \<open>dropletMsg\<close> of line 41 (the
  text a finished \<open>dropletCreate\<close> sends), the spinner's tick, and any other message.
\<close>

datatype Msg = KeyMsg Key | dropletMsg string | spinner_TickMsg | OtherMsg

subsection \<open>The creation request (godo.DropletCreateRequest)\<close>

text \<open>
  Of godo's request type, the four fields \<open>setDropletCreate\<close> assigns; every other field
  keeps its zero value. An image is given by \<open>ID\<close> or by \<open>Slug\<close>; the field not set is
  zero (\<open>0\<close>, the empty string).
\<close>

record DropletCreateImage =
  ID :: int
  Slug :: string

record DropletCreateRequest =
  Name :: string
  Region :: string
  Size :: string
  Image :: DropletCreateImage

subsection \<open>Commands\<close>

text \<open>
  A \<open>tea.Cmd\<close> is a function the runtime runs for its message. The commands of this
  program: \<open>tea.Quit\<close>, the cursor's blink, the spinner's tick, \<open>dropletCreate\<close> of a
  request (line 201; what running it does is \<open>dropletCreate\<close> below), and a batch of
  commands, each of which may be \<open>nil\<close>. The \<open>nil\<close> command is \<open>None\<close>.
\<close>

datatype Cmd =
    Quit
  | Blink
  | spinner_Tick
  | dropletCreateCmd DropletCreateRequest
  | BatchCmd "Cmd option list"

text \<open>
  \<open>tea.Batch\<close> of bubbletea v0.18.0 (the version of \<open>go.mod\<close>): \<open>nil\<close> when it is called
  with no command at all, else a command that hands all of them to the runtime, the
  \<open>nil\<close> ones included (the runtime skips those).
\<close>

definition tea_Batch :: "Cmd option list \<Rightarrow> Cmd option" where
  "tea_Batch cmds = (if cmds = [] then None else Some (BatchCmd cmds))"

text \<open>
  The creation requests a command hands to \<open>dropletCreate\<close>, in order: the runs of
  \<open>dropletCreate\<close> the runtime starts for it.
\<close>

primrec tasks :: "Cmd \<Rightarrow> DropletCreateRequest list" where
  "tasks Quit = []"
| "tasks Blink = []"
| "tasks spinner_Tick = []"
| "tasks (dropletCreateCmd r) = [r]"
| "tasks (BatchCmd cs) =
     concat (map (\<lambda>c. case c of None \<Rightarrow> [] | Some ts \<Rightarrow> ts) (map (map_option tasks) cs))"

definition dispatched :: "Cmd option \<Rightarrow> DropletCreateRequest list" where
  "dispatched c = (case c of None \<Rightarrow> [] | Some x \<Rightarrow> tasks x)"

subsection \<open>The text input (bubbles/textinput)\<close>

text \<open>
  The fields of \<open>textinput.Model\<close> that \<open>main.go\<close> reads or writes, the text it holds
  (\<open>Value\<close>, read by the method \<open>Value()\<close>) and whether it has the focus.
\<close>

record textinput =
  Prompt :: string
  Placeholder :: string
  PlaceholderStyle :: Style
  PromptStyle :: Style
  TextStyle :: Style
  CursorStyle :: Style
  CharLimit :: int
  Value :: string
  focus :: bool

definition textinput_NewModel :: textinput where
  "textinput_NewModel =
     \<lparr>Prompt = ''> '', Placeholder = '''', PlaceholderStyle = Foreground ''240'',
      PromptStyle = NewStyle, TextStyle = NewStyle, CursorStyle = NewStyle,
      CharLimit = 0, Value = '''', focus = False\<rparr>"

text \<open>\<open>Focus()\<close> sets the focus and returns the blink command; \<open>Blur()\<close> removes it.\<close>

definition Focus :: "textinput \<Rightarrow> textinput \<times> Cmd option" where
  "Focus t = (t\<lparr>focus := True\<rparr>, Some Blink)"

definition Blur :: "textinput \<Rightarrow> textinput" where
  "Blur t = t\<lparr>focus := False\<rparr>"

text \<open>
  Modelled from the spec: the field's \<open>insert\<close> and \<open>delete_backward\<close> of section 4.1
  (the code of \<open>textinput.Model.Update\<close> is in the bubbles library, not in the
  repository). \<open>insert\<close> appends a character if the field is focused and shorter than its
  limit, \<open>delete_backward\<close> removes the last character of a focused, non-empty field.
\<close>

definition insert_char :: "char \<Rightarrow> textinput \<Rightarrow> textinput" where
  "insert_char c t =
     (if focus t \<and> int (length (Value t)) < CharLimit t then t\<lparr>Value := Value t @ [c]\<rparr> else t)"

definition delete_backward :: "textinput \<Rightarrow> textinput" where
  "delete_backward t =
     (if focus t \<and> Value t \<noteq> [] then t\<lparr>Value := butlast (Value t)\<rparr> else t)"

text \<open>
  Modelled from the spec: \<open>textinput.Model.Update\<close>, as section 4.1 and the comment at
  line 161 of \<open>main.go\<close> describe it: an input without the focus does not respond; with
  the focus, typed text is inserted character by character and backspace deletes
  backward. Cursor movement and the commands the library returns for its cursor are left
  out (the command is \<open>nil\<close>).
\<close>

definition textinput_Update :: "Msg \<Rightarrow> textinput \<Rightarrow> textinput \<times> Cmd option" where
  "textinput_Update msg t =
     (if \<not> focus t then (t, None)
      else case msg of
             KeyMsg (KeyRunes rs) \<Rightarrow> (fold insert_char rs t, None)
           | KeyMsg KeyBackspace \<Rightarrow> (delete_backward t, None)
           | _ \<Rightarrow> (t, None))"

subsection \<open>The spinner (bubbles/spinner)\<close>

text \<open>
  Modelled from the spec: the progress indicator of section 4.4, which advances one frame
  per tick and asks for the next tick; no other message changes it. The frame is a
  counter (the library wraps it around the frames of \<open>spinner.Points\<close>).
\<close>

record spinner_Model =
  Style :: Style
  frame :: nat

definition spinner_NewModel :: spinner_Model where
  "spinner_NewModel = \<lparr>Style = NewStyle, frame = 0\<rparr>"

definition spinner_Update :: "Msg \<Rightarrow> spinner_Model \<Rightarrow> spinner_Model \<times> Cmd option" where
  "spinner_Update msg s =
     (case msg of
        spinner_TickMsg \<Rightarrow> (s\<lparr>frame := Suc (frame s)\<rparr>, Some spinner_Tick)
      | _ \<Rightarrow> (s, None))"

subsection \<open>strconv.Atoi\<close>

text \<open>
  Go's \<open>strconv.Atoi\<close> on a 64-bit platform, \<open>None\<close> for an error: an optional sign,
  then one or more decimal digits and nothing else, the value within the range of
  \<open>int\<close>. (A syntax error and a range error are both errors; \<open>setDropletCreate\<close> only
  asks whether there was one.)
\<close>

definition digit_val :: "char \<Rightarrow> nat option" where
  "digit_val c =
     (let n = (of_char c :: nat) in if 48 \<le> n \<and> n \<le> 57 then Some (n - 48) else None)"

fun parse_digits :: "string \<Rightarrow> nat \<Rightarrow> nat option" where
  "parse_digits [] n = Some n"
| "parse_digits (c # cs) n =
     (case digit_val c of None \<Rightarrow> None | Some d \<Rightarrow> parse_digits cs (n * 10 + d))"

definition Atoi :: "string \<Rightarrow> int option" where
  "Atoi s =
     (if s = [] then None
      else
        let neg = (hd s = CHR ''-'');
            body = (if hd s = CHR ''-'' \<or> hd s = CHR ''+'' then tl s else s)
        in if body = [] then None
           else case parse_digits body 0 of
                  None \<Rightarrow> None
                | Some n \<Rightarrow>
                    let v = (if neg then - int n else int n)
                    in if - (2 ^ 63) \<le> v \<and> v \<le> 2 ^ 63 - 1 then Some v else None)"

subsection \<open>setDropletCreate (lines 251-278)\<close>

text \<open>
  The request built from the four inputs: each of name, region and size is the input's
  value, or its placeholder when the value is empty; the image string is resolved the
  same way and becomes an \<open>ID\<close> when \<open>Atoi\<close> accepts it, a \<open>Slug\<close> otherwise.
  Indexing a slice of fewer than four inputs panics: \<open>None\<close>.
\<close>

definition setDropletCreate :: "textinput list \<Rightarrow> DropletCreateRequest option" where
  "setDropletCreate inputs =
     (if length inputs < 4 then None
      else
        let name = Value (inputs ! 0);
            name = (if name = '''' then Placeholder (inputs ! 0) else name);
            region = Value (inputs ! 1);
            region = (if region = '''' then Placeholder (inputs ! 1) else region);
            sz = Value (inputs ! 2);
            sz = (if sz = '''' then Placeholder (inputs ! 2) else sz);
            imageStr = Value (inputs ! 3);
            imageStr = (if imageStr = '''' then Placeholder (inputs ! 3) else imageStr);
            createImage = (case Atoi imageStr of
                             None \<Rightarrow> \<lparr>ID = 0, Slug = imageStr\<rparr>
                           | Some i \<Rightarrow> \<lparr>ID = i, Slug = ''''\<rparr>)
        in Some \<lparr>Name = name, Region = region, Size = sz, Image = createImage\<rparr>)"

subsection \<open>The model and initialModel (lines 31-85)\<close>

text \<open>
  \<open>cursorMode\<close> is never assigned; it keeps its zero value (the blinking cursor).
  \<open>droplet\<close> is a pointer, \<open>nil\<close> until the form is submitted.
\<close>

record model =
  focusIndex :: int
  inputs :: "textinput list"
  cursorMode :: nat
  spinner :: spinner_Model
  creating :: bool
  finalMsg :: string
  droplet :: "DropletCreateRequest option"

text \<open>The body of the loop of lines 53-82 for index \<open>i\<close>.\<close>

definition initial_input :: "nat \<Rightarrow> textinput" where
  "initial_input i =
     (let t = textinput_NewModel\<lparr>CursorStyle := cursorStyle, CharLimit := 32\<rparr>
      in if i = 0 then
           (fst (Focus t))\<lparr>Prompt := ''Name: '', Placeholder := ''web-001'',
             PlaceholderStyle := placeholderStyle, PromptStyle := focusedStyle,
             TextStyle := focusedStyle, CharLimit := 64\<rparr>
         else if i = 1 then
           t\<lparr>Prompt := ''Region: '', Placeholder := ''nyc3'',
             PlaceholderStyle := placeholderStyle\<rparr>
         else if i = 2 then
           t\<lparr>Prompt := ''Size: '', Placeholder := ''s-1vcpu-1gb'',
             PlaceholderStyle := placeholderStyle\<rparr>
         else if i = 3 then
           t\<lparr>Prompt := ''Image: '', Placeholder := ''ubuntu-20-04-x64'',
             PlaceholderStyle := placeholderStyle\<rparr>
         else t)"

definition initialModel :: model where
  "initialModel =
     \<lparr>focusIndex = 0,
      inputs = map initial_input [0, 1, 2, 3],
      cursorMode = 0,
      spinner = spinner_NewModel\<lparr>Style := focusedStyle\<rparr>,
      creating = False,
      finalMsg = '''',
      droplet = None\<rparr>"

subsection \<open>Update (lines 90-168)\<close>

text \<open>
  The loop of lines 125-138, from index \<open>i\<close> on: the input at \<open>focusIndex\<close> gets the
  focus and the focused styles, every other input is blurred; each input comes with the
  command stored for it in \<open>cmds\<close>.
\<close>

fun setFocus :: "int \<Rightarrow> int \<Rightarrow> textinput list \<Rightarrow> (textinput \<times> Cmd option) list" where
  "setFocus fi i [] = []"
| "setFocus fi i (t # ts) =
     (if i = fi
      then ((fst (Focus t))\<lparr>PromptStyle := focusedStyle, TextStyle := focusedStyle\<rparr>,
            snd (Focus t))
      else ((Blur t)\<lparr>PromptStyle := noStyle, TextStyle := noStyle\<rparr>, None))
     # setFocus fi (i + 1) ts"

text \<open>\<open>updateInputs\<close> (lines 158-168): every input sees the message.\<close>

definition updateInputs :: "model \<Rightarrow> Msg \<Rightarrow> model \<times> Cmd option" where
  "updateInputs m msg =
     (let r = map (textinput_Update msg) (inputs m)
      in (m\<lparr>inputs := map fst r\<rparr>, tea_Batch (map snd r)))"

text \<open>Lines 148-155, where \<open>Update\<close> ends for a message no case has returned on.\<close>

definition update_rest :: "model \<Rightarrow> Msg \<Rightarrow> model \<times> Cmd option" where
  "update_rest m msg =
     (let (m1, cmd0) = updateInputs m msg;
          (sp, spinnerCmd) = spinner_Update msg (spinner m1)
      in (m1\<lparr>spinner := sp\<rparr>, tea_Batch [cmd0, spinnerCmd]))"

text \<open>
  \<open>Update\<close> returns the new model and a command, or panics (\<open>None\<close>) where
  \<open>setDropletCreate\<close> does. Nothing in it reads \<open>creating\<close> or \<open>finalMsg\<close>.
\<close>

definition Update :: "model \<Rightarrow> Msg \<Rightarrow> (model \<times> Cmd option) option" where
  "Update m msg =
     (case msg of
        KeyMsg k \<Rightarrow>
          (let s = Key_String k in
           if s = ''ctrl+c'' \<or> s = ''esc'' then Some (m, Some Quit)
           else if s = ''tab'' \<or> s = ''shift+tab'' \<or> s = ''enter'' \<or> s = ''up'' \<or> s = ''down''
           then
             (if s = ''enter'' \<and> focusIndex m = int (length (inputs m)) then
                (case setDropletCreate (inputs m) of
                   None \<Rightarrow> None
                 | Some d \<Rightarrow>
                     Some (m\<lparr>droplet := Some d, creating := True\<rparr>,
                           tea_Batch [Some (dropletCreateCmd d), Some spinner_Tick]))
              else
                (let fi = (if s = ''up'' \<or> s = ''shift+tab''
                           then focusIndex m - 1 else focusIndex m + 1);
                     fi = (if fi > int (length (inputs m)) then 0
                           else if fi < 0 then int (length (inputs m)) else fi);
                     r = setFocus fi 0 (inputs m)
                 in Some (m\<lparr>focusIndex := fi, inputs := map fst r\<rparr>, tea_Batch (map snd r))))
           else Some (update_rest m msg))
      | dropletMsg s \<Rightarrow> Some (m\<lparr>finalMsg := s\<rparr>, Some Quit)
      | _ \<Rightarrow> Some (update_rest m msg))"

text \<open>
  The event loop on a list of messages: the model after the last one and the commands
  returned on the way, \<open>None\<close> if an \<open>Update\<close> panics. (The runtime stops at
  \<open>tea.Quit\<close>; \<open>run\<close> goes on, which covers the runs of the program and more.)
\<close>

fun run :: "model \<Rightarrow> Msg list \<Rightarrow> (model \<times> Cmd option list) option" where
  "run m [] = Some (m, [])"
| "run m (x # xs) =
     (case Update m x of
        None \<Rightarrow> None
      | Some (m1, c) \<Rightarrow>
          (case run m1 xs of None \<Rightarrow> None | Some (m2, cs) \<Rightarrow> Some (m2, c # cs)))"

text \<open>
  What \<open>View\<close> (lines 170-199) shows, by the tests of lines 173 and 179: the final
  message once there is one, else the spinner while \<open>creating\<close>, else the form. These
  are the phases of the form: editing, submitting, and finished with a message.
\<close>

datatype Screen = ShowsForm | ShowsSpinner | ShowsFinalMsg string

definition View_screen :: "model \<Rightarrow> Screen" where
  "View_screen m =
     (if finalMsg m \<noteq> '''' then ShowsFinalMsg (finalMsg m)
      else if creating m then ShowsSpinner
      else ShowsForm)"

subsection \<open>The DigitalOcean client (godo) and the world of dropletCreate\<close>

text \<open>
  A Go \<open>error\<close>, by the description its \<open>Error()\<close> gives; \<open>errors.New\<close> makes one.
\<close>

datatype error = Err string

fun Error :: "error \<Rightarrow> string" where
  "Error (Err s) = s"

definition errors_New :: "string \<Rightarrow> error" where
  "errors_New s = Err s"

text \<open>
  Of godo's types, what \<open>dropletCreate\<close> reads. A field godo declares as a pointer is an
  option (\<open>nil\<close> is \<open>None\<close>); the price is a \<open>float64\<close>, kept as its 64 bits. The
  droplet's networks are present through the results of its two address methods, a string
  and an error that may be \<open>nil\<close>.
\<close>

record LinkAction =
  HREF :: string

record Links =
  Actions :: "LinkAction list"

record Response =
  Response_Links :: "Links option"

record godo_Size =
  Size_Slug :: string
  PriceMonthly :: "64 word"

record godo_Region =
  Region_Name :: string

record Droplet =
  Droplet_ID :: int
  Droplet_Name :: string
  Droplet_Size :: "godo_Size option"
  Droplet_Region :: "godo_Region option"
  PublicIPv4 :: "string \<times> error option"
  PrivateIPv4 :: "string \<times> error option"

text \<open>
  A call of the client returns, or it does not: the three operations run requests under
  \<open>context.Background()\<close> (line 209), which is never cancelled and sets no deadline, so
  a request may block for ever; \<open>util.WaitForActive\<close> polls the action for as long as it
  stays in progress, and panics on a reply that carries no action.
\<close>

datatype 'a call = Returns 'a | No_return

text \<open>
  The client's three operations, and what Go returns from them when they return:
  \<open>Droplets.Create\<close> gives a droplet, a response and an error, \<open>util.WaitForActive\<close> an
  error, \<open>Droplets.Get\<close> a droplet and an error (its response is dropped at line 219).
\<close>

record Client =
  Droplets_Create ::
    "DropletCreateRequest \<Rightarrow> (Droplet option \<times> Response option \<times> error option) call"
  WaitForActive :: "string \<Rightarrow> error option call"
  Droplets_Get :: "int \<Rightarrow> (Droplet option \<times> error option) call"

text \<open>
  What \<open>dropletCreate\<close> finds outside the program: the process environment, the client
  that \<open>godo.NewFromToken\<close> builds for a token, how the terminal renders a style
  (lipgloss's \<open>Render\<close>), and how \<open>fmt\<close> prints a price with \<open>$%.2f\<close>.
\<close>

record World =
  environ :: "string \<rightharpoonup> string"
  NewFromToken :: "string \<Rightarrow> Client"
  Render :: "Style \<Rightarrow> string \<Rightarrow> string"
  Sprintf_price :: "64 word \<Rightarrow> string"

text \<open>\<open>os.Getenv\<close>: the value of a variable, empty when it is not set.\<close>

definition os_Getenv :: "World \<Rightarrow> string \<Rightarrow> string" where
  "os_Getenv w key = (case environ w key of None \<Rightarrow> '''' | Some v \<Rightarrow> v)"

text \<open>A call of the client, for the record of the calls a run of the command makes.\<close>

datatype Call = CallCreate DropletCreateRequest | CallWaitForActive string | CallGet int

text \<open>
  The two literals of lines 234 and 248 that start with characters outside ASCII, by
  their bytes in \<open>main.go\<close>.
\<close>

definition success_prefix :: string where
  "success_prefix =
     [CHR 0xC3, CHR 0xB0, CHR 0xC5, CHR 0xB8, CHR 0xC5, CHR 0xBD, CHR 0xE2, CHR 0x80,
      CHR 0xB0, CHR '' '', CHR 0xC3, CHR 0xB0, CHR 0xC5, CHR 0xB8, CHR 0xE2, CHR 0x80,
      CHR 0x99, CHR 0xC2, CHR 0xA7, CHR '' '']"

definition wrong_text :: string where
  "wrong_text =
     [CHR 0xC3, CHR 0xB0, CHR 0xC5, CHR 0xB8, CHR 0xCB, CHR 0x9C, CHR 0xC5, CHR 0xBE]
     @ '' Something went wrong:''"

text \<open>\<open>dropletErrorMsg\<close> (lines 247-249).\<close>

definition dropletErrorMsg :: "World \<Rightarrow> error \<Rightarrow> string" where
  "dropletErrorMsg w err =
     Render w focusedStyle wrong_text @ ''\<newline>\<newline>''
     @ Render w placeholderStyle (Error err) @ ''\<newline>\<newline>''"

text \<open>The text built at lines 233-243 from the droplet and its two addresses.\<close>

definition success_text ::
  "World \<Rightarrow> string \<Rightarrow> godo_Size \<Rightarrow> godo_Region \<Rightarrow> string \<Rightarrow> string \<Rightarrow> string" where
  "success_text w name sz region pubIP privIP =
     success_prefix @ Render w focusedStyle ''Success!'' @ ''\<newline>\<newline>''
     @ Render w focusedStyle ''Name:'' @ '' '' @ Render w placeholderStyle name
       @ ''\<newline>''
     @ Render w focusedStyle ''Price Monthly:'' @ '' ''
       @ Render w placeholderStyle (Sprintf_price w (PriceMonthly sz)) @ ''\<newline>''
     @ Render w focusedStyle ''Region:'' @ '' ''
       @ Render w placeholderStyle (Region_Name region) @ ''\<newline>''
     @ Render w focusedStyle ''Size:'' @ '' ''
       @ Render w placeholderStyle (Size_Slug sz) @ ''\<newline>''
     @ Render w focusedStyle ''Public IPv4:'' @ '' '' @ Render w placeholderStyle pubIP
       @ ''\<newline>''
     @ Render w focusedStyle ''Private IPv4:'' @ '' '' @ Render w placeholderStyle privIP
       @ ''\<newline>''
     @ ''\<newline>''"

text \<open>
  \<open>resp.Links.Actions[0].HREF\<close> of line 215: a \<open>nil\<close> response or \<open>nil\<close> links, or an
  empty list of actions, is a panic (\<open>None\<close>).
\<close>

definition first_action_HREF :: "Response option \<Rightarrow> string option" where
  "first_action_HREF resp =
     (case resp of
        None \<Rightarrow> None
      | Some r \<Rightarrow>
          (case Response_Links r of
             None \<Rightarrow> None
           | Some l \<Rightarrow> (case Actions l of [] \<Rightarrow> None | a # _ \<Rightarrow> Some (HREF a))))"

text \<open>
  Running the command \<open>dropletCreate createReq\<close> (lines 201-245) in a world: the calls
  it makes to the client, in order, and the \<open>dropletMsg\<close> it returns; \<open>None\<close> when it
  returns no message: a call of the client does not return, or the command panics, which
  it does where it follows a \<open>nil\<close> pointer or indexes the empty list of actions. The
  variable \<open>droplet\<close> of the source is \<open>created\<close> after line 211 and \<open>fetched\<close> after
  line 219.
\<close>

definition dropletCreate :: "World \<Rightarrow> DropletCreateRequest \<Rightarrow> Call list \<times> string option" where
  "dropletCreate w createReq =
     (let token = os_Getenv w ''DO_TOKEN'' in
      if token = '''' then
        ([], Some (dropletErrorMsg w (errors_New
           ''set the 'DO_TOKEN' environment variable to a DigitalOcean API token'')))
      else
        let client = NewFromToken w token in
        case Droplets_Create client createReq of
          No_return \<Rightarrow> ([CallCreate createReq], None)
        | Returns (created, resp, err) \<Rightarrow>
        (case err of
           Some e \<Rightarrow> ([CallCreate createReq], Some (dropletErrorMsg w e))
         | None \<Rightarrow>
        (case first_action_HREF resp of
           None \<Rightarrow> ([CallCreate createReq], None)
         | Some href \<Rightarrow>
        (case WaitForActive client href of
           No_return \<Rightarrow> ([CallCreate createReq, CallWaitForActive href], None)
         | Returns (Some e) \<Rightarrow>
             ([CallCreate createReq, CallWaitForActive href], Some (dropletErrorMsg w e))
         | Returns None \<Rightarrow>
        (case created of
           None \<Rightarrow> ([CallCreate createReq, CallWaitForActive href], None)
         | Some d0 \<Rightarrow>
        (let calls = [CallCreate createReq, CallWaitForActive href, CallGet (Droplet_ID d0)] in
         case Droplets_Get client (Droplet_ID d0) of
           No_return \<Rightarrow> (calls, None)
         | Returns (fetched, err) \<Rightarrow>
        (case err of
           Some e \<Rightarrow> (calls, Some (dropletErrorMsg w e))
         | None \<Rightarrow>
        (case fetched of
           None \<Rightarrow> (calls, None)
         | Some d \<Rightarrow>
        (case PublicIPv4 d of (pubIP, err) \<Rightarrow>
        (case err of
           Some e \<Rightarrow> (calls, Some (dropletErrorMsg w e))
         | None \<Rightarrow>
        (case PrivateIPv4 d of (privIP, err) \<Rightarrow>
        (case err of
           Some e \<Rightarrow> (calls, Some (dropletErrorMsg w e))
         | None \<Rightarrow>
        (case Droplet_Size d of
           None \<Rightarrow> (calls, None)
         | Some sz \<Rightarrow>
        (case Droplet_Region d of
           None \<Rightarrow> (calls, None)
         | Some region \<Rightarrow>
             (calls, Some (success_text w (Droplet_Name d) sz region pubIP privIP))))))))))))))))"

subsection \<open>The vocabulary of the specification\<close>

text \<open>
  The key presses the specification names: the cancel action (line 94), advancing the
  focus (tab, down) and retreating (shift+tab, up) (lines 98 and 113), and enter.
\<close>

definition is_cancel :: "Key \<Rightarrow> bool" where
  "is_cancel k = (Key_String k = ''ctrl+c'' \<or> Key_String k = ''esc'')"

definition is_advance :: "Key \<Rightarrow> bool" where
  "is_advance k = (Key_String k = ''tab'' \<or> Key_String k = ''down'')"

definition is_retreat :: "Key \<Rightarrow> bool" where
  "is_retreat k = (Key_String k = ''shift+tab'' \<or> Key_String k = ''up'')"

definition is_enter :: "Key \<Rightarrow> bool" where
  "is_enter k = (Key_String k = ''enter'')"

text \<open>
  The number of focused elements among the inputs and the create button; the button is
  the focused one when \<open>focusIndex\<close> is the number of inputs (line 193).
\<close>

definition focused_count :: "model \<Rightarrow> nat" where
  "focused_count m =
     length (filter focus (inputs m))
     + (if focusIndex m = int (length (inputs m)) then 1 else 0)"

text \<open>The models the program can be in: the initial one, and every one \<open>Update\<close> returns.\<close>

inductive reachable :: "model \<Rightarrow> bool" where
  reachable_init: "reachable initialModel"
| reachable_step: "reachable m \<Longrightarrow> Update m msg = Some (m1, c) \<Longrightarrow> reachable m1"

text \<open>
  The form's invariant: four inputs, \<open>focusIndex\<close> between 0 and 4, and an input has
  the focus exactly when \<open>focusIndex\<close> is its index.
\<close>

definition form_inv :: "model \<Rightarrow> bool" where
  "form_inv m =
     (length (inputs m) = 4 \<and> 0 \<le> focusIndex m \<and> focusIndex m \<le> 4
      \<and> map focus (inputs m) = map (\<lambda>i. int i = focusIndex m) [0, 1, 2, 3])"

text \<open>
  The model once the untouched form has been submitted: the focus on the button, every
  input blurred, and the request built from the placeholders.
\<close>

definition default_request :: DropletCreateRequest where
  "default_request =
     \<lparr>Name = ''web-001'', Region = ''nyc3'', Size = ''s-1vcpu-1gb'',
      Image = \<lparr>ID = 0, Slug = ''ubuntu-20-04-x64''\<rparr>\<rparr>"

definition blurred_input :: "nat \<Rightarrow> textinput" where
  "blurred_input i = (initial_input i)\<lparr>PromptStyle := noStyle, TextStyle := noStyle, focus := False\<rparr>"

definition at_button :: model where
  "at_button = initialModel\<lparr>focusIndex := 4, inputs := map blurred_input [0, 1, 2, 3]\<rparr>"

definition submitted :: model where
  "submitted = at_button\<lparr>droplet := Some default_request, creating := True\<rparr>"

definition to_button :: "Msg list" where
  "to_button = [KeyMsg KeyTab, KeyMsg KeyTab, KeyMsg KeyTab, KeyMsg KeyTab]"

text \<open>
  The resolved value of a field in the specification's words (section 4.1): the value if
  it is not empty, else the placeholder. \<open>main.go\<close> has no such function;
  \<open>setDropletCreate\<close> computes it in place for each input.
\<close>

definition resolved_value :: "textinput \<Rightarrow> string" where
  "resolved_value t = (if Value t \<noteq> '''' then Value t else Placeholder t)"

text \<open>
  The replies of the client to a run of \<open>dropletCreate\<close> are complete when the calls the
  run makes return, a create that returns no error returns a droplet and a response with
  an action link, and a get that returns no error returns a droplet with its size and
  its region: the results the interface of section 6 promises. Without a token the
  client is not asked, after an error no further call is made.
\<close>

definition complete_replies :: "World \<Rightarrow> DropletCreateRequest \<Rightarrow> bool" where
  "complete_replies w req =
     (os_Getenv w ''DO_TOKEN'' = '''' \<or>
      (let client = NewFromToken w (os_Getenv w ''DO_TOKEN'') in
       case Droplets_Create client req of
         No_return \<Rightarrow> False
       | Returns (created, resp, err) \<Rightarrow>
           err \<noteq> None \<or>
           (case (first_action_HREF resp, created) of
              (Some href, Some d0) \<Rightarrow>
                (case WaitForActive client href of
                   No_return \<Rightarrow> False
                 | Returns (Some e) \<Rightarrow> True
                 | Returns None \<Rightarrow>
                     (case Droplets_Get client (Droplet_ID d0) of
                        No_return \<Rightarrow> False
                      | Returns (fetched, err) \<Rightarrow>
                          err \<noteq> None \<or>
                          (case fetched of
                             None \<Rightarrow> False
                           | Some d \<Rightarrow> Droplet_Size d \<noteq> None \<and> Droplet_Region d \<noteq> None)))
            | _ \<Rightarrow> False)))"

text \<open>
  The terminal's rendering keeps a text when the rendered text contains it (lipgloss
  puts colour sequences around the lines of a text).
\<close>

definition keeps_text :: "World \<Rightarrow> string \<Rightarrow> bool" where
  "keeps_text w s = sublist s (Render w placeholderStyle s)"

text \<open>
  A run of \<open>dropletCreate\<close> emits the message \<open>msg\<close> and the form takes it: the run returns
  \<open>msg\<close>, \<open>Update\<close> stores it in \<open>finalMsg\<close> and quits (lines 143-145), and \<open>View\<close> shows
  it. The model has no field for the phase: the form has succeeded when the message
  stored is the success text, and failed when it is an error message.
\<close>

definition emits_and_stores :: "World \<Rightarrow> DropletCreateRequest \<Rightarrow> model \<Rightarrow> string \<Rightarrow> bool" where
  "emits_and_stores w req m msg =
     (snd (dropletCreate w req) = Some msg
      \<and> Update m (dropletMsg msg) = Some (m\<lparr>finalMsg := msg\<rparr>, Some Quit)
      \<and> View_screen (m\<lparr>finalMsg := msg\<rparr>) = ShowsFinalMsg msg)"

subsection \<open>Base-10 values\<close>

text \<open>
  The base-10 value of a string of digits, and of a string with an optional sign, in the
  usual positional reading: the digit at position \<open>k\<close> of \<open>n\<close> digits counts
  \<open>10 ^ (n - 1 - k)\<close> times.
\<close>

definition digit_of :: "char \<Rightarrow> nat" where
  "digit_of c = of_char c - 48"

definition base10_value :: "string \<Rightarrow> nat" where
  "base10_value ds = (\<Sum>k < length ds. digit_of (ds ! k) * 10 ^ (length ds - 1 - k))"

definition signed_base10_value :: "string \<Rightarrow> int" where
  "signed_base10_value s =
     (if s \<noteq> [] \<and> hd s = CHR ''-'' then - int (base10_value (tl s))
      else if s \<noteq> [] \<and> hd s = CHR ''+'' then int (base10_value (tl s))
      else int (base10_value s))"

text \<open>
  A decimal literal: an optional sign, then one or more decimal digits and nothing else.
\<close>

definition is_digit :: "char \<Rightarrow> bool" where
  "is_digit c = (48 \<le> (of_char c :: nat) \<and> (of_char c :: nat) \<le> 57)"

definition decimal_literal :: "string \<Rightarrow> bool" where
  "decimal_literal s =
     (let body = (if s \<noteq> [] \<and> (hd s = CHR ''-'' \<or> hd s = CHR ''+'') then tl s else s)
      in body \<noteq> [] \<and> list_all is_digit body)"

subsection \<open>Example worlds\<close>

text \<open>
  Worlds to run \<open>dropletCreate\<close> in: a terminal that renders a styled string as the string
  itself, an environment, and a client; and a client every call of which succeeds.
\<close>

definition plain_world :: "(string \<rightharpoonup> string) \<Rightarrow> Client \<Rightarrow> World" where
  "plain_world env c =
     \<lparr>environ = env, NewFromToken = (\<lambda>token. c), Render = (\<lambda>st s. s),
      Sprintf_price = (\<lambda>p. ''$5.00'')\<rparr>"

definition example_droplet :: Droplet where
  "example_droplet =
     \<lparr>Droplet_ID = 1, Droplet_Name = ''web-001'',
      Droplet_Size = Some \<lparr>Size_Slug = ''s-1vcpu-1gb'', PriceMonthly = 0x4014000000000000\<rparr>,
      Droplet_Region = Some \<lparr>Region_Name = ''New York 3''\<rparr>,
      PublicIPv4 = (''203.0.113.7'', None), PrivateIPv4 = (''10.0.0.7'', None)\<rparr>"

definition good_client :: Client where
  "good_client =
     \<lparr>Droplets_Create = (\<lambda>r. Returns (Some example_droplet,
          Some \<lparr>Response_Links = Some \<lparr>Actions = [\<lparr>HREF = ''/v2/actions/7''\<rparr>]\<rparr>\<rparr>, None)),
      WaitForActive = (\<lambda>href. Returns None),
      Droplets_Get = (\<lambda>i. Returns (Some example_droplet, None))\<rparr>"

text \<open>
  A client whose create succeeds with a response that lists no actions, a client whose
  get succeeds with a droplet that has no size, a client whose wait does not return, and
  a client whose create fails.
\<close>

definition no_actions_client :: Client where
  "no_actions_client =
     good_client\<lparr>Droplets_Create :=
       (\<lambda>r. Returns (Some example_droplet, Some \<lparr>Response_Links = Some \<lparr>Actions = []\<rparr>\<rparr>,
          None))\<rparr>"

definition no_size_client :: Client where
  "no_size_client =
     good_client\<lparr>Droplets_Get :=
       (\<lambda>i. Returns (Some (example_droplet\<lparr>Droplet_Size := None\<rparr>), None))\<rparr>"

definition stuck_client :: Client where
  "stuck_client = good_client\<lparr>WaitForActive := (\<lambda>href. No_return)\<rparr>"

definition failing_client :: Client where
  "failing_client =
     good_client\<lparr>Droplets_Create :=
       (\<lambda>r. Returns (None, None, Some (Err ''422 unprocessable'')))\<rparr>"

section \<open>Properties\<close>

subsection \<open>Commands\<close>

lemma tasks_BatchCmd: "tasks (BatchCmd cs) = concat (map dispatched cs)"
proof -
  have "(\<lambda>c. case c of None \<Rightarrow> [] | Some ts \<Rightarrow> ts) \<circ> map_option tasks = dispatched"
    by (rule ext) (simp add: dispatched_def split: option.splits)
  then show ?thesis by simp
qed

lemma dispatched_tea_Batch: "dispatched (tea_Batch cs) = concat (map dispatched cs)"
proof (cases "cs = []")
  case True
  then show ?thesis by (simp add: tea_Batch_def dispatched_def)
next
  case False
  then have "dispatched (tea_Batch cs) = tasks (BatchCmd cs)"
    by (simp add: tea_Batch_def dispatched_def)
  then show ?thesis by (simp only: tasks_BatchCmd)
qed

lemma dispatched_submit:
  "dispatched (Some (BatchCmd [Some (dropletCreateCmd d), Some spinner_Tick])) = [d]"
  by (simp add: dispatched_def)

subsection \<open>Text inputs\<close>

lemma fold_insert_char_focus: "focus (fold insert_char rs t) = focus t"
  by (induction rs arbitrary: t) (auto simp: insert_char_def)

lemma textinput_Update_focus: "focus (fst (textinput_Update msg t)) = focus t"
  by (auto simp: textinput_Update_def fold_insert_char_focus delete_backward_def
      split: Msg.splits Key.splits)

lemma textinput_Update_cmd: "snd (textinput_Update msg t) = None"
  by (auto simp: textinput_Update_def split: Msg.splits Key.splits)

lemma textinput_Update_blurred: "\<not> focus t \<Longrightarrow> textinput_Update msg t = (t, None)"
  by (simp add: textinput_Update_def)

lemma updateInputs_eq:
  "updateInputs m msg =
     (m\<lparr>inputs := map (\<lambda>t. fst (textinput_Update msg t)) (inputs m)\<rparr>,
      tea_Batch (map (\<lambda>t. None) (inputs m)))"
  by (simp add: updateInputs_def Let_def textinput_Update_cmd comp_def)

lemma update_rest_key:
  "update_rest m (KeyMsg k) =
     (m\<lparr>inputs := map (\<lambda>t. fst (textinput_Update (KeyMsg k) t)) (inputs m)\<rparr>,
      Some (BatchCmd [tea_Batch (map (\<lambda>t. None) (inputs m)), None]))"
  by (simp add: update_rest_def updateInputs_eq spinner_Update_def tea_Batch_def)

lemma update_rest_inputs:
  "inputs (fst (update_rest m msg)) = map (\<lambda>t. fst (textinput_Update msg t)) (inputs m)"
  by (simp add: update_rest_def updateInputs_eq split_def Let_def)

lemma update_rest_frame:
  "focusIndex (fst (update_rest m msg)) = focusIndex m
   \<and> creating (fst (update_rest m msg)) = creating m
   \<and> finalMsg (fst (update_rest m msg)) = finalMsg m
   \<and> droplet (fst (update_rest m msg)) = droplet m"
  by (simp add: update_rest_def updateInputs_eq split_def Let_def)

lemma update_rest_dispatched: "dispatched (snd (update_rest m msg)) = []"
proof -
  have "dispatched (snd (spinner_Update msg s)) = []" for s
    by (simp add: spinner_Update_def dispatched_def split: Msg.splits)
  moreover have "dispatched None = []" by (simp add: dispatched_def)
  ultimately show ?thesis
    by (simp add: update_rest_def updateInputs_eq split_def Let_def dispatched_tea_Batch)
qed

subsection \<open>The cases of Update\<close>

lemma Update_cancel: "is_cancel k \<Longrightarrow> Update m (KeyMsg k) = Some (m, Some Quit)"
  by (auto simp: Update_def is_cancel_def)

lemma Update_submit:
  "is_enter k \<Longrightarrow> focusIndex m = int (length (inputs m)) \<Longrightarrow>
   Update m (KeyMsg k) =
     (case setDropletCreate (inputs m) of
        None \<Rightarrow> None
      | Some d \<Rightarrow> Some (m\<lparr>droplet := Some d, creating := True\<rparr>,
                       Some (BatchCmd [Some (dropletCreateCmd d), Some spinner_Tick])))"
  by (auto simp: Update_def is_enter_def tea_Batch_def split: option.splits)

lemma Update_move:
  "is_advance k \<or> is_retreat k \<or> is_enter k \<Longrightarrow>
   \<not> (is_enter k \<and> focusIndex m = int (length (inputs m))) \<Longrightarrow>
   Update m (KeyMsg k) =
     (let fi = (if is_retreat k then focusIndex m - 1 else focusIndex m + 1);
          fi = (if fi > int (length (inputs m)) then 0
                else if fi < 0 then int (length (inputs m)) else fi);
          r = setFocus fi 0 (inputs m)
      in Some (m\<lparr>focusIndex := fi, inputs := map fst r\<rparr>, tea_Batch (map snd r)))"
  by (auto simp: Update_def is_enter_def is_advance_def is_retreat_def Let_def)

lemma Update_other_key:
  "\<not> is_cancel k \<Longrightarrow> \<not> is_advance k \<Longrightarrow> \<not> is_retreat k \<Longrightarrow> \<not> is_enter k \<Longrightarrow>
   Update m (KeyMsg k) = Some (update_rest m (KeyMsg k))"
  by (auto simp: Update_def is_enter_def is_advance_def is_retreat_def is_cancel_def Let_def)

lemma key_cases:
  obtains (cancel) "is_cancel k"
  | (submit) "is_enter k" "focusIndex m = int (length (inputs m))"
  | (move) "is_advance k \<or> is_retreat k \<or> is_enter k"
      "\<not> (is_enter k \<and> focusIndex m = int (length (inputs m)))"
  | (other) "\<not> is_cancel k" "\<not> is_advance k" "\<not> is_retreat k" "\<not> is_enter k"
  by blast

subsection \<open>setFocus\<close>

lemma list4: "length xs = 4 \<Longrightarrow> \<exists>a b c d. xs = [a, b, c, d]"
  by (auto simp: numeral_eq_Suc length_Suc_conv)

lemma setDropletCreate_total: "length ts = 4 \<Longrightarrow> \<exists>d. setDropletCreate ts = Some d"
  by (simp add: setDropletCreate_def Let_def)

lemma setFocus_cmds: "dispatched (tea_Batch (map snd (setFocus fi i ts))) = []"
proof -
  have "concat (map dispatched (map snd (setFocus fi i ts))) = []"
    by (induction ts arbitrary: i) (auto simp: dispatched_def Focus_def)
  then show ?thesis by (simp add: dispatched_tea_Batch)
qed

lemma index_cases: "0 \<le> (i::int) \<Longrightarrow> i \<le> 4 \<Longrightarrow> i = 0 \<or> i = 1 \<or> i = 2 \<or> i = 3 \<or> i = 4"
  by arith


subsection \<open>The invariant\<close>

lemma form_inv_initial: "form_inv initialModel"
  by (simp add: form_inv_def initialModel_def initial_input_def textinput_NewModel_def Focus_def)

lemma setFocus_four:
  assumes "length ts = 4" "0 \<le> fi" "fi \<le> 4"
  shows "length (setFocus fi 0 ts) = 4"
    and "map focus (map fst (setFocus fi 0 ts)) = map (\<lambda>i. int i = fi) [0, 1, 2, 3]"
    and "map Value (map fst (setFocus fi 0 ts)) = map Value ts"
    and "map Placeholder (map fst (setFocus fi 0 ts)) = map Placeholder ts"
proof -
  obtain a b c d where ts: "ts = [a, b, c, d]"
    using list4 [OF assms(1)] by blast
  show "length (setFocus fi 0 ts) = 4"
    by (simp add: ts)
  show "map focus (map fst (setFocus fi 0 ts)) = map (\<lambda>i. int i = fi) [0, 1, 2, 3]"
    using index_cases [OF assms(2,3)] by (auto simp: ts Focus_def Blur_def)
  show "map Value (map fst (setFocus fi 0 ts)) = map Value ts"
    by (simp add: ts Focus_def Blur_def)
  show "map Placeholder (map fst (setFocus fi 0 ts)) = map Placeholder ts"
    by (simp add: ts Focus_def Blur_def)
qed

lemma form_inv_rest: "form_inv m \<Longrightarrow> form_inv (fst (update_rest m msg))"
  by (simp add: form_inv_def update_rest_inputs update_rest_frame comp_def
      textinput_Update_focus)

lemma Update_move_inv:
  assumes inv: "form_inv m"
    and key: "is_advance k \<or> is_retreat k \<or> is_enter k"
    and nosub: "\<not> (is_enter k \<and> focusIndex m = 4)"
  shows "\<exists>m1 c. Update m (KeyMsg k) = Some (m1, c) \<and> form_inv m1
           \<and> focusIndex m1 = (if is_retreat k then (focusIndex m - 1 + 5) mod 5
                               else (focusIndex m + 1) mod 5)
           \<and> dispatched c = [] \<and> creating m1 = creating m \<and> finalMsg m1 = finalMsg m
           \<and> droplet m1 = droplet m
           \<and> map Value (inputs m1) = map Value (inputs m)
           \<and> map Placeholder (inputs m1) = map Placeholder (inputs m)"
proof -
  from inv have len: "length (inputs m) = 4" and lo: "0 \<le> focusIndex m" and hi: "focusIndex m \<le> 4"
    by (simp_all add: form_inv_def)
  define fi where "fi = (if is_retreat k then (focusIndex m - 1 + 5) mod 5
                         else (focusIndex m + 1) mod 5)"
  have fi_eq: "(let f = (if is_retreat k then focusIndex m - 1 else focusIndex m + 1)
                in if f > int (length (inputs m)) then 0
                   else if f < 0 then int (length (inputs m)) else f) = fi"
    using index_cases [OF lo hi] by (auto simp: fi_def len Let_def)
  have fi_range: "0 \<le> fi" "fi \<le> 4"
    using index_cases [OF lo hi] by (auto simp: fi_def)
  from nosub len have "\<not> (is_enter k \<and> focusIndex m = int (length (inputs m)))"
    by simp
  from Update_move [OF key this] fi_eq
  have upd: "Update m (KeyMsg k) =
               Some (m\<lparr>focusIndex := fi, inputs := map fst (setFocus fi 0 (inputs m))\<rparr>,
                     tea_Batch (map snd (setFocus fi 0 (inputs m))))"
    by (simp add: Let_def)
  have "form_inv (m\<lparr>focusIndex := fi, inputs := map fst (setFocus fi 0 (inputs m))\<rparr>)"
    using setFocus_four(1,2) [OF len fi_range] fi_range by (simp add: form_inv_def)
  with upd setFocus_four(3,4) [OF len fi_range] show ?thesis
    by (simp add: setFocus_cmds fi_def)
qed

lemma Update_form_inv:
  assumes inv: "form_inv m"
  shows "\<exists>m1 c. Update m msg = Some (m1, c) \<and> form_inv m1"
proof (cases msg)
  case (KeyMsg k)
  show ?thesis
  proof (cases rule: key_cases [where k = k and m = m])
    case cancel
    with inv KeyMsg show ?thesis by (simp add: Update_cancel)
  next
    case submit
    from inv have "length (inputs m) = 4" by (simp add: form_inv_def)
    from setDropletCreate_total [OF this] obtain d where "setDropletCreate (inputs m) = Some d" ..
    with submit have "Update m (KeyMsg k) =
        Some (m\<lparr>droplet := Some d, creating := True\<rparr>,
              Some (BatchCmd [Some (dropletCreateCmd d), Some spinner_Tick]))"
      by (simp add: Update_submit)
    moreover from inv have "form_inv (m\<lparr>droplet := Some d, creating := True\<rparr>)"
      by (simp add: form_inv_def)
    ultimately show ?thesis using KeyMsg by simp
  next
    case move
    from inv have "length (inputs m) = 4" by (simp add: form_inv_def)
    with move(2) have "\<not> (is_enter k \<and> focusIndex m = 4)" by simp
    from Update_move_inv [OF inv move(1) this] KeyMsg show ?thesis by blast
  next
    case other
    then have "Update m (KeyMsg k) = Some (update_rest m (KeyMsg k))"
      by (rule Update_other_key)
    with form_inv_rest [OF inv, of "KeyMsg k"] KeyMsg show ?thesis
      by (cases "update_rest m (KeyMsg k)") simp
  qed
next
  case (dropletMsg s)
  with inv show ?thesis by (simp add: Update_def form_inv_def)
next
  case spinner_TickMsg
  with form_inv_rest [OF inv, of msg] show ?thesis
    by (cases "update_rest m msg") (simp add: Update_def)
next
  case OtherMsg
  with form_inv_rest [OF inv, of msg] show ?thesis
    by (cases "update_rest m msg") (simp add: Update_def)
qed

lemma reachable_form_inv: "reachable m \<Longrightarrow> form_inv m"
proof (induction rule: reachable.induct)
  case reachable_init
  show ?case by (rule form_inv_initial)
next
  case (reachable_step m msg m1 c)
  from Update_form_inv [OF reachable_step.IH, of msg] reachable_step.hyps(2)
  show ?case by auto
qed

lemma run_form_inv: "form_inv m \<Longrightarrow> \<exists>m1 cs. run m msgs = Some (m1, cs) \<and> form_inv m1"
proof (induction msgs arbitrary: m)
  case Nil
  then show ?case by simp
next
  case (Cons x xs)
  from Update_form_inv [OF Cons.prems, of x]
  obtain m1 c where u: "Update m x = Some (m1, c)" and i: "form_inv m1" by blast
  from Cons.IH [OF i] obtain m2 cs where "run m1 xs = Some (m2, cs)" "form_inv m2" by blast
  with u show ?case by simp
qed

lemma run_reachable: "reachable m \<Longrightarrow> run m msgs = Some (m1, cs) \<Longrightarrow> reachable m1"
proof (induction msgs arbitrary: m cs)
  case Nil
  then show ?case by simp
next
  case (Cons x xs)
  from Cons.prems(2) obtain m2 c cs2 where u: "Update m x = Some (m2, c)"
    and r: "run m2 xs = Some (m1, cs2)"
    by (auto split: option.splits)
  from Cons.prems(1) u have "reachable m2" by (rule reachable_step)
  from Cons.IH [OF this r] show ?case .
qed

lemma form_inv_focused_count: "form_inv m \<Longrightarrow> focused_count m = 1"
proof -
  assume inv: "form_inv m"
  have "length (filter focus (inputs m)) = length (filter (\<lambda>b. b) (map focus (inputs m)))"
    by (simp add: filter_map comp_def)
  also from inv have "map focus (inputs m) = map (\<lambda>i. int i = focusIndex m) [0, 1, 2, 3]"
    by (simp add: form_inv_def)
  finally have c: "length (filter focus (inputs m))
                   = length (filter (\<lambda>b. b) (map (\<lambda>i. int i = focusIndex m) [0, 1, 2, 3]))" .
  from inv have "length (inputs m) = 4" "0 \<le> focusIndex m" "focusIndex m \<le> 4"
    by (simp_all add: form_inv_def)
  with index_cases [of "focusIndex m"] c show ?thesis
    by (auto simp: focused_count_def)
qed

subsection \<open>The placeholders\<close>

lemma fold_insert_char_Placeholder: "Placeholder (fold insert_char rs t) = Placeholder t"
  by (induction rs arbitrary: t) (auto simp: insert_char_def)

lemma textinput_Update_Placeholder: "Placeholder (fst (textinput_Update msg t)) = Placeholder t"
  by (auto simp: textinput_Update_def fold_insert_char_Placeholder delete_backward_def
      split: Msg.splits Key.splits)

lemma update_rest_placeholders:
  "map Placeholder (inputs (fst (update_rest m msg))) = map Placeholder (inputs m)"
  by (simp add: update_rest_inputs comp_def textinput_Update_Placeholder)

lemma Update_placeholders:
  assumes inv: "form_inv m" and upd: "Update m msg = Some (m1, c)"
  shows "map Placeholder (inputs m1) = map Placeholder (inputs m)"
proof (cases msg)
  case (KeyMsg k)
  show ?thesis
  proof (cases rule: key_cases [where k = k and m = m])
    case cancel
    with upd KeyMsg show ?thesis by (simp add: Update_cancel)
  next
    case submit
    with upd KeyMsg show ?thesis
      by (auto simp: Update_submit split: option.splits)
  next
    case move
    from inv have "length (inputs m) = 4" by (simp add: form_inv_def)
    with move(2) have "\<not> (is_enter k \<and> focusIndex m = 4)" by simp
    from Update_move_inv [OF inv move(1) this] upd KeyMsg show ?thesis by auto
  next
    case other
    then have "Update m (KeyMsg k) = Some (update_rest m (KeyMsg k))"
      by (rule Update_other_key)
    with upd KeyMsg have "m1 = fst (update_rest m (KeyMsg k))" by auto
    then show ?thesis by (simp add: update_rest_placeholders)
  qed
next
  case (dropletMsg s)
  with upd show ?thesis by (auto simp: Update_def)
next
  case spinner_TickMsg
  with upd have "m1 = fst (update_rest m msg)" by (auto simp: Update_def)
  then show ?thesis by (simp add: update_rest_placeholders)
next
  case OtherMsg
  with upd have "m1 = fst (update_rest m msg)" by (auto simp: Update_def)
  then show ?thesis by (simp add: update_rest_placeholders)
qed

lemma reachable_placeholders:
  "reachable m \<Longrightarrow>
   map Placeholder (inputs m) = [''web-001'', ''nyc3'', ''s-1vcpu-1gb'', ''ubuntu-20-04-x64'']"
proof (induction rule: reachable.induct)
  case reachable_init
  show ?case
    by (simp add: initialModel_def initial_input_def textinput_NewModel_def Focus_def)
next
  case (reachable_step m msg m1 c)
  from Update_placeholders [OF reachable_form_inv [OF reachable_step.hyps(1)] reachable_step.hyps(2)]
    reachable_step.IH
  show ?case by simp
qed

subsection \<open>The way to the button\<close>

lemma run_to_button:
  "run initialModel to_button =
     Some (at_button,
           [Some (BatchCmd [None, Some Blink, None, None]),
            Some (BatchCmd [None, None, Some Blink, None]),
            Some (BatchCmd [None, None, None, Some Blink]),
            Some (BatchCmd [None, None, None, None])])"
  by (simp add: to_button_def at_button_def Update_def initialModel_def initial_input_def
      textinput_NewModel_def Focus_def Blur_def blurred_input_def tea_Batch_def
      cursorStyle_def noStyle_def focusedStyle_def placeholderStyle_def)

lemma reachable_at_button: "reachable at_button"
  using run_reachable [OF reachable_init run_to_button] .

lemma Update_at_button:
  "Update at_button (KeyMsg KeyEnter) =
     Some (submitted, Some (BatchCmd [Some (dropletCreateCmd default_request), Some spinner_Tick]))"
  by (simp add: submitted_def at_button_def Update_def initialModel_def initial_input_def
      textinput_NewModel_def Focus_def Blur_def blurred_input_def tea_Batch_def
      setDropletCreate_def default_request_def Atoi_def digit_val_def)

lemma reachable_submitted: "reachable submitted"
  using reachable_step [OF reachable_at_button Update_at_button] .

subsection \<open>The keys are told apart\<close>

lemma advance_not_other: "is_advance k \<Longrightarrow> \<not> is_retreat k \<and> \<not> is_enter k \<and> \<not> is_cancel k"
  by (auto simp: is_advance_def is_retreat_def is_enter_def is_cancel_def)

lemma retreat_not_other: "is_retreat k \<Longrightarrow> \<not> is_advance k \<and> \<not> is_enter k \<and> \<not> is_cancel k"
  by (auto simp: is_advance_def is_retreat_def is_enter_def is_cancel_def)

lemma enter_not_other: "is_enter k \<Longrightarrow> \<not> is_advance k \<and> \<not> is_retreat k \<and> \<not> is_cancel k"
  by (auto simp: is_advance_def is_retreat_def is_enter_def is_cancel_def)

subsection \<open>Cancelling\<close>

text \<open>
  Claim C9. In every phase the cancel keys end the program and change nothing: for any
  model \<open>m\<close>, whatever \<open>creating\<close> and \<open>finalMsg\<close> are, \<open>Update\<close> on \<open>ctrl+c\<close> or
  \<open>esc\<close> returns \<open>m\<close> itself with the command \<open>tea.Quit\<close> and nothing else, so no
  result message is stored and no request is dispatched. The result does not depend on
  the phase, so the step is the same while editing and while submitting.
\<close>

theorem cancel_quits_in_every_phase:
  "is_cancel k \<Longrightarrow> Update m (KeyMsg k) = Some (m, Some Quit)"
  by (rule Update_cancel)

theorem cancel_quits_in_every_phase_witness:
  "is_cancel KeyCtrlC \<and> is_cancel KeyEsc
   \<and> View_screen initialModel = ShowsForm
   \<and> Update initialModel (KeyMsg KeyCtrlC) = Some (initialModel, Some Quit)
   \<and> View_screen submitted = ShowsSpinner
   \<and> Update submitted (KeyMsg KeyEsc) = Some (submitted, Some Quit)
   \<and> View_screen (submitted\<lparr>finalMsg := ''done''\<rparr>) = ShowsFinalMsg ''done''
   \<and> Update (submitted\<lparr>finalMsg := ''done''\<rparr>) (KeyMsg KeyEsc)
       = Some (submitted\<lparr>finalMsg := ''done''\<rparr>, Some Quit)"
  using cancel_quits_in_every_phase [of KeyCtrlC initialModel]
    cancel_quits_in_every_phase [of KeyEsc submitted]
    cancel_quits_in_every_phase [of KeyEsc "submitted\<lparr>finalMsg := ''done''\<rparr>"]
  by (simp add: is_cancel_def View_screen_def initialModel_def submitted_def at_button_def)

subsection \<open>The focus\<close>

text \<open>
  Claim C6. After any sequence of advance and retreat key presses from the initial
  model, the form has its four inputs, \<open>focusIndex\<close> lies between 0 and the number of
  inputs (4, the create button), and exactly one element among the inputs and the button
  has the focus. As every sequence is covered, this holds at every point of a sequence.
  (The invariant \<open>form_inv\<close> behind it holds after any messages at all, see
  \<open>run_form_inv\<close>.)
\<close>

theorem focus_in_range_and_single:
  "\<forall>k \<in> set ks. is_advance k \<or> is_retreat k \<Longrightarrow>
   \<exists>m cs. run initialModel (map KeyMsg ks) = Some (m, cs)
     \<and> length (inputs m) = 4
     \<and> 0 \<le> focusIndex m \<and> focusIndex m \<le> int (length (inputs m))
     \<and> focused_count m = 1"
proof -
  from run_form_inv [OF form_inv_initial, of "map KeyMsg ks"]
  obtain m cs where r: "run initialModel (map KeyMsg ks) = Some (m, cs)" and i: "form_inv m"
    by blast
  from i form_inv_focused_count [OF i] r show ?thesis
    by (simp add: form_inv_def)
qed

theorem focus_in_range_and_single_witness:
  "\<exists>m cs. run initialModel (map KeyMsg [KeyTab, KeyDown, KeyUp, KeyTab, KeyShiftTab]) = Some (m, cs)
     \<and> length (inputs m) = 4
     \<and> 0 \<le> focusIndex m \<and> focusIndex m \<le> int (length (inputs m))
     \<and> focused_count m = 1"
  using focus_in_range_and_single [of "[KeyTab, KeyDown, KeyUp, KeyTab, KeyShiftTab]"]
  by (simp add: is_advance_def is_retreat_def)

lemma run_advance:
  "form_inv m \<Longrightarrow> \<forall>k \<in> set ks. is_advance k \<Longrightarrow>
   \<exists>m1 cs. run m (map KeyMsg ks) = Some (m1, cs) \<and> form_inv m1
     \<and> focusIndex m1 = (focusIndex m + int (length ks)) mod 5"
proof (induction ks arbitrary: m)
  case Nil
  then show ?case by (simp add: form_inv_def)
next
  case (Cons k ks)
  from Cons.prems(2) have adv: "is_advance k" and rest: "\<forall>k \<in> set ks. is_advance k"
    by simp_all
  from advance_not_other [OF adv] have nr: "\<not> is_retreat k" and ne: "\<not> is_enter k"
    by simp_all
  from Update_move_inv [OF Cons.prems(1), of k] adv nr ne
  obtain m1 c where u: "Update m (KeyMsg k) = Some (m1, c)" and i: "form_inv m1"
    and f: "focusIndex m1 = (focusIndex m + 1) mod 5"
    by auto
  from Cons.IH [OF i rest] obtain m2 cs where r: "run m1 (map KeyMsg ks) = Some (m2, cs)"
    and i2: "form_inv m2" and f2: "focusIndex m2 = (focusIndex m1 + int (length ks)) mod 5"
    by blast
  have "focusIndex m2 = (focusIndex m + int (length (k # ks))) mod 5"
    by (simp add: f2 f mod_simps add.commute add.left_commute)
  with u r i2 show ?case by simp
qed

text \<open>
  Claim C7. In every reachable model, an advance key (tab, down) sets \<open>focusIndex\<close> to
  \<open>(focusIndex + 1) mod 5\<close>, a retreat key (shift+tab, up) sets it to
  \<open>(focusIndex - 1 + 5) mod 5\<close>, and five advance keys in a row bring \<open>focusIndex\<close>
  back to where it was.
\<close>

theorem focus_cycles:
  assumes "reachable m"
  shows "(is_advance k \<longrightarrow>
            (\<exists>m1 c. Update m (KeyMsg k) = Some (m1, c)
               \<and> focusIndex m1 = (focusIndex m + 1) mod 5))
       \<and> (is_retreat k \<longrightarrow>
            (\<exists>m1 c. Update m (KeyMsg k) = Some (m1, c)
               \<and> focusIndex m1 = (focusIndex m - 1 + 5) mod 5))
       \<and> (length ks = 5 \<and> (\<forall>k \<in> set ks. is_advance k) \<longrightarrow>
            (\<exists>m1 cs. run m (map KeyMsg ks) = Some (m1, cs) \<and> focusIndex m1 = focusIndex m))"
proof -
  from assms have inv: "form_inv m" by (rule reachable_form_inv)
  have a: "\<exists>m1 c. Update m (KeyMsg k) = Some (m1, c) \<and> focusIndex m1 = (focusIndex m + 1) mod 5"
    if "is_advance k"
    using Update_move_inv [OF inv, of k] that advance_not_other [OF that] by auto
  have b: "\<exists>m1 c. Update m (KeyMsg k) = Some (m1, c) \<and> focusIndex m1 = (focusIndex m - 1 + 5) mod 5"
    if "is_retreat k"
    using Update_move_inv [OF inv, of k] that retreat_not_other [OF that] by auto
  have c: "\<exists>m1 cs. run m (map KeyMsg ks) = Some (m1, cs) \<and> focusIndex m1 = focusIndex m"
    if "length ks = 5" "\<forall>k \<in> set ks. is_advance k"
  proof -
    from run_advance [OF inv that(2)] that(1)
    obtain m1 cs where r: "run m (map KeyMsg ks) = Some (m1, cs)"
      and f: "focusIndex m1 = (focusIndex m + 5) mod 5"
      by auto
    from inv have "0 \<le> focusIndex m" "focusIndex m \<le> 4" by (simp_all add: form_inv_def)
    then have "(focusIndex m + 5) mod 5 = focusIndex m" by simp
    with r f show ?thesis by simp
  qed
  from a b c show ?thesis by blast
qed

theorem focus_cycles_witness:
  "(\<exists>m1 c. Update at_button (KeyMsg KeyTab) = Some (m1, c) \<and> focusIndex m1 = 0)
   \<and> (\<exists>m1 c. Update initialModel (KeyMsg KeyShiftTab) = Some (m1, c) \<and> focusIndex m1 = 4)
   \<and> (\<exists>m1 cs. run at_button (map KeyMsg [KeyTab, KeyDown, KeyTab, KeyDown, KeyTab]) = Some (m1, cs)
         \<and> focusIndex m1 = 4)"
  using focus_cycles [OF reachable_at_button, of KeyTab "[KeyTab, KeyDown, KeyTab, KeyDown, KeyTab]"]
    focus_cycles [OF reachable_init, of KeyShiftTab "[]"]
  by (simp add: is_advance_def is_retreat_def at_button_def initialModel_def)

lemma run_enter:
  "form_inv m \<Longrightarrow> is_enter k \<Longrightarrow> n = nat (4 - focusIndex m) \<Longrightarrow>
   \<exists>m2 cs. run m (replicate n (KeyMsg k)) = Some (m2, cs) \<and> form_inv m2
     \<and> focusIndex m2 = 4 \<and> concat (map dispatched cs) = []
     \<and> creating m2 = creating m \<and> finalMsg m2 = finalMsg m
     \<and> map Value (inputs m2) = map Value (inputs m)"
proof (induction n arbitrary: m)
  case 0
  then show ?case by (simp add: form_inv_def)
next
  case (Suc n)
  from Suc.prems(3) have lt: "focusIndex m < 4" by simp
  from Suc.prems(1) have lo: "0 \<le> focusIndex m" by (simp add: form_inv_def)
  from lt have ns: "\<not> (is_enter k \<and> focusIndex m = 4)" by simp
  from Update_move_inv [OF Suc.prems(1) _ ns, of ] Suc.prems(2) enter_not_other [OF Suc.prems(2)]
  obtain m1 c where u: "Update m (KeyMsg k) = Some (m1, c)" and i: "form_inv m1"
    and f: "focusIndex m1 = (focusIndex m + 1) mod 5" and d: "dispatched c = []"
    and fr: "creating m1 = creating m" "finalMsg m1 = finalMsg m"
      "map Value (inputs m1) = map Value (inputs m)"
    by auto
  from lo lt f have f1: "focusIndex m1 = focusIndex m + 1" by simp
  with Suc.prems(3) have "n = nat (4 - focusIndex m1)" by simp
  from Suc.IH [OF i Suc.prems(2) this] obtain m2 cs
    where "run m1 (replicate n (KeyMsg k)) = Some (m2, cs)" "form_inv m2" "focusIndex m2 = 4"
      "concat (map dispatched cs) = []" "creating m2 = creating m1" "finalMsg m2 = finalMsg m1"
      "map Value (inputs m2) = map Value (inputs m1)"
    by blast
  with u d fr show ?case by simp
qed

text \<open>
  Claim C10. In a reachable model whose focus is on an input (\<open>focusIndex\<close> below the
  number of inputs), enter does exactly what tab and down do: \<open>Update\<close> returns the same
  model and command, \<open>focusIndex\<close> grows by one, no request is dispatched and \<open>creating\<close>
  is unchanged. Pressing enter as many times as there are inputs left reaches the create
  button without dispatching anything, and the next enter dispatches one request, the one
  \<open>setDropletCreate\<close> builds, and sets \<open>creating\<close>.
\<close>

theorem enter_on_a_field_advances:
  assumes "reachable m" and "focusIndex m < int (length (inputs m))" and "is_enter k"
  shows "Update m (KeyMsg k) = Update m (KeyMsg KeyTab)
       \<and> Update m (KeyMsg k) = Update m (KeyMsg KeyDown)
       \<and> (\<exists>m1 c. Update m (KeyMsg k) = Some (m1, c) \<and> focusIndex m1 = focusIndex m + 1
             \<and> dispatched c = [] \<and> creating m1 = creating m)
       \<and> (\<exists>m2 cs m3 c d.
             run m (replicate (nat (int (length (inputs m)) - focusIndex m)) (KeyMsg k)) = Some (m2, cs)
             \<and> focusIndex m2 = int (length (inputs m2))
             \<and> concat (map dispatched cs) = [] \<and> creating m2 = creating m
             \<and> Update m2 (KeyMsg k) = Some (m3, c)
             \<and> setDropletCreate (inputs m2) = Some d
             \<and> dispatched c = [d] \<and> creating m3)"
proof -
  from assms(1) have inv: "form_inv m" by (rule reachable_form_inv)
  then have len: "length (inputs m) = 4" and lo: "0 \<le> focusIndex m"
    by (simp_all add: form_inv_def)
  from assms(2) len have lt: "focusIndex m < 4" by simp
  then have ns: "\<not> (is_enter k \<and> focusIndex m = int (length (inputs m)))"
    using len by simp
  note ne = enter_not_other [OF assms(3)]
  have tab: "is_advance KeyTab" "\<not> is_retreat KeyTab" "\<not> is_enter KeyTab"
    and down: "is_advance KeyDown" "\<not> is_retreat KeyDown" "\<not> is_enter KeyDown"
    by (simp_all add: is_advance_def is_retreat_def is_enter_def)
  have e1: "Update m (KeyMsg k) = Update m (KeyMsg KeyTab)"
    using Update_move [of k m] Update_move [of KeyTab m] assms(3) ne ns tab by simp
  have e2: "Update m (KeyMsg k) = Update m (KeyMsg KeyDown)"
    using Update_move [of k m] Update_move [of KeyDown m] assms(3) ne ns down by simp
  from lt have ns4: "\<not> (is_enter k \<and> focusIndex m = 4)" by simp
  from Update_move_inv [OF inv _ ns4] assms(3) ne
  obtain m1 c where u: "Update m (KeyMsg k) = Some (m1, c)"
    and f: "focusIndex m1 = (focusIndex m + 1) mod 5" and d: "dispatched c = []"
    and cr: "creating m1 = creating m"
    by auto
  from lo lt f have "focusIndex m1 = focusIndex m + 1" by simp
  with u d cr have e3: "\<exists>m1 c. Update m (KeyMsg k) = Some (m1, c) \<and> focusIndex m1 = focusIndex m + 1
             \<and> dispatched c = [] \<and> creating m1 = creating m"
    by blast
  from run_enter [OF inv assms(3) refl] obtain m2 cs
    where r: "run m (replicate (nat (4 - focusIndex m)) (KeyMsg k)) = Some (m2, cs)"
      and i2: "form_inv m2" and f2: "focusIndex m2 = 4"
      and d2: "concat (map dispatched cs) = []" and c2: "creating m2 = creating m"
    by blast
  from i2 have len2: "length (inputs m2) = 4" by (simp add: form_inv_def)
  from setDropletCreate_total [OF len2] obtain dr where s: "setDropletCreate (inputs m2) = Some dr" ..
  from f2 len2 have "focusIndex m2 = int (length (inputs m2))" by simp
  from Update_submit [OF assms(3) this] s
  have u3: "Update m2 (KeyMsg k) =
      Some (m2\<lparr>droplet := Some dr, creating := True\<rparr>,
            Some (BatchCmd [Some (dropletCreateCmd dr), Some spinner_Tick]))"
    by simp
  have "dispatched (Some (BatchCmd [Some (dropletCreateCmd dr), Some spinner_Tick])) = [dr]"
    by (simp add: dispatched_def)
  with r f2 len2 d2 c2 u3 s len
  have e4: "\<exists>m2 cs m3 c d.
             run m (replicate (nat (int (length (inputs m)) - focusIndex m)) (KeyMsg k)) = Some (m2, cs)
             \<and> focusIndex m2 = int (length (inputs m2))
             \<and> concat (map dispatched cs) = [] \<and> creating m2 = creating m
             \<and> Update m2 (KeyMsg k) = Some (m3, c)
             \<and> setDropletCreate (inputs m2) = Some d
             \<and> dispatched c = [d] \<and> creating m3"
    by (intro exI [of _ m2] exI [of _ cs] exI [of _ "m2\<lparr>droplet := Some dr, creating := True\<rparr>"]
        exI [of _ "Some (BatchCmd [Some (dropletCreateCmd dr), Some spinner_Tick])"] exI [of _ dr]) simp
  from e1 e2 e3 e4 show ?thesis by blast
qed

theorem enter_on_a_field_advances_witness:
  "reachable initialModel
   \<and> focusIndex initialModel < int (length (inputs initialModel))
   \<and> is_enter KeyEnter
   \<and> (Update initialModel (KeyMsg KeyEnter) = Update initialModel (KeyMsg KeyTab)
       \<and> Update initialModel (KeyMsg KeyEnter) = Update initialModel (KeyMsg KeyDown)
       \<and> (\<exists>m1 c. Update initialModel (KeyMsg KeyEnter) = Some (m1, c)
             \<and> focusIndex m1 = focusIndex initialModel + 1
             \<and> dispatched c = [] \<and> creating m1 = creating initialModel)
       \<and> (\<exists>m2 cs m3 c d.
             run initialModel
               (replicate (nat (int (length (inputs initialModel)) - focusIndex initialModel))
                  (KeyMsg KeyEnter)) = Some (m2, cs)
             \<and> focusIndex m2 = int (length (inputs m2))
             \<and> concat (map dispatched cs) = [] \<and> creating m2 = creating initialModel
             \<and> Update m2 (KeyMsg KeyEnter) = Some (m3, c)
             \<and> setDropletCreate (inputs m2) = Some d
             \<and> dispatched c = [d] \<and> creating m3))"
proof -
  have lt: "focusIndex initialModel < int (length (inputs initialModel))"
    by (simp add: initialModel_def)
  have e: "is_enter KeyEnter"
    by (simp add: is_enter_def)
  show ?thesis
    by (rule conjI [OF reachable_init conjI [OF lt conjI [OF e
          enter_on_a_field_advances [OF reachable_init lt e]]]])
qed

subsection \<open>What Atoi parses\<close>

lemma base10_value_Cons:
  "base10_value (c # cs) = digit_of c * 10 ^ length cs + base10_value cs"
  by (simp add: base10_value_def sum.lessThan_Suc_shift del: sum.lessThan_Suc)

lemma digit_val_digit_of: "digit_val c = Some d \<Longrightarrow> d = digit_of c"
  by (auto simp: digit_val_def digit_of_def Let_def split: if_splits)

lemma parse_digits_value:
  "parse_digits ds n = Some v \<Longrightarrow> v = n * 10 ^ length ds + base10_value ds"
proof (induction ds arbitrary: n)
  case Nil
  then show ?case by (simp add: base10_value_def)
next
  case (Cons c cs)
  from Cons.prems obtain d where d: "digit_val c = Some d"
    and r: "parse_digits cs (n * 10 + d) = Some v"
    by (auto split: option.splits)
  from Cons.IH [OF r] digit_val_digit_of [OF d] show ?case
    by (simp add: base10_value_Cons algebra_simps)
qed

lemma Atoi_value: "Atoi s = Some i \<Longrightarrow> i = signed_base10_value s"
proof -
  assume a: "Atoi s = Some i"
  then have ne: "s \<noteq> []" by (auto simp: Atoi_def)
  show ?thesis
  proof (cases "hd s = CHR ''-''")
    case True
    with a ne obtain n where "parse_digits (tl s) 0 = Some n" "i = - int n"
      by (auto simp: Atoi_def Let_def split: if_splits option.splits)
    with parse_digits_value [of "tl s" 0 n] True ne show ?thesis
      by (simp add: signed_base10_value_def)
  next
    case False
    show ?thesis
    proof (cases "hd s = CHR ''+''")
      case True
      with a ne False obtain n where "parse_digits (tl s) 0 = Some n" "i = int n"
        by (auto simp: Atoi_def Let_def split: if_splits option.splits)
      with parse_digits_value [of "tl s" 0 n] True False ne show ?thesis
        by (simp add: signed_base10_value_def)
    next
      case nplus: False
      with a ne False obtain n where "parse_digits s 0 = Some n" "i = int n"
        by (auto simp: Atoi_def Let_def split: if_splits option.splits)
      with parse_digits_value [of s 0 n] nplus False ne show ?thesis
        by (simp add: signed_base10_value_def)
    qed
  qed
qed

lemma parse_digits_Some_iff: "(\<exists>v. parse_digits ds n = Some v) \<longleftrightarrow> list_all is_digit ds"
  by (induction ds arbitrary: n)
    (auto simp: digit_val_def is_digit_def Let_def split: option.splits if_splits)

lemma Atoi_Some_iff:
  "Atoi s = Some i \<longleftrightarrow>
     decimal_literal s \<and> i = signed_base10_value s \<and> - (2 ^ 63) \<le> i \<and> i \<le> 2 ^ 63 - 1"
proof
  assume a: "Atoi s = Some i"
  from Atoi_value [OF a] have v: "i = signed_base10_value s" .
  from a have ne: "s \<noteq> []" by (auto simp: Atoi_def)
  let ?body = "if hd s = CHR ''-'' \<or> hd s = CHR ''+'' then tl s else s"
  from a ne obtain n where b: "?body \<noteq> []" and p: "parse_digits ?body 0 = Some n"
    and r: "- (2 ^ 63) \<le> i \<and> i \<le> 2 ^ 63 - 1"
    by (auto simp: Atoi_def Let_def split: if_splits option.splits)
  from p have "list_all is_digit ?body"
    using parse_digits_Some_iff [of ?body 0] by blast
  with b ne have "decimal_literal s"
    by (simp add: decimal_literal_def Let_def)
  with v r show "decimal_literal s \<and> i = signed_base10_value s \<and> - (2 ^ 63) \<le> i \<and> i \<le> 2 ^ 63 - 1"
    by simp
next
  assume h: "decimal_literal s \<and> i = signed_base10_value s \<and> - (2 ^ 63) \<le> i \<and> i \<le> 2 ^ 63 - 1"
  then have ne: "s \<noteq> []"
    by (auto simp: decimal_literal_def Let_def)
  let ?body = "if hd s = CHR ''-'' \<or> hd s = CHR ''+'' then tl s else s"
  from h ne have b: "?body \<noteq> []" and d: "list_all is_digit ?body"
    by (auto simp: decimal_literal_def Let_def split: if_splits)
  from d obtain n where p: "parse_digits ?body 0 = Some n"
    using parse_digits_Some_iff [of ?body 0] by blast
  from parse_digits_value [OF p] have n: "n = base10_value ?body" by simp
  have sv: "signed_base10_value s = (if hd s = CHR ''-'' then - int n else int n)"
    using ne n by (auto simp: signed_base10_value_def)
  with h have "- (2 ^ 63) \<le> (if hd s = CHR ''-'' then - int n else int n)
      \<and> (if hd s = CHR ''-'' then - int n else int n) \<le> 2 ^ 63 - 1"
    by simp
  with ne b p sv h show "Atoi s = Some i"
    by (simp add: Atoi_def Let_def)
qed

lemma Atoi_12345: "Atoi ''12345'' = Some 12345"
  by (simp add: Atoi_def digit_val_def)

lemma Atoi_ubuntu: "Atoi ''ubuntu-20-04-x64'' = None"
  by (simp add: Atoi_def digit_val_def)

lemma setDropletCreate_resolved:
  "4 \<le> length ts \<Longrightarrow>
   setDropletCreate ts =
     Some \<lparr>Name = resolved_value (ts ! 0), Region = resolved_value (ts ! 1),
           Size = resolved_value (ts ! 2),
           Image = (case Atoi (resolved_value (ts ! 3)) of
                      None \<Rightarrow> \<lparr>ID = 0, Slug = resolved_value (ts ! 3)\<rparr>
                    | Some i \<Rightarrow> \<lparr>ID = i, Slug = ''''\<rparr>)\<rparr>"
  by (auto simp: setDropletCreate_def resolved_value_def Let_def split: option.splits)

subsection \<open>The creation request\<close>

text \<open>
  Claim C3. In a reachable model whose four inputs are all empty, enter on the create
  button builds and dispatches the request with name \<open>web-001\<close>, region \<open>nyc3\<close>, size
  \<open>s-1vcpu-1gb\<close> and the image given by the slug \<open>ubuntu-20-04-x64\<close> (no numeric
  identifier), the placeholders of \<open>initialModel\<close>.
\<close>

theorem empty_form_submits_placeholders:
  assumes "reachable m" and "map Value (inputs m) = ['''', '''', '''', '''']"
    and "focusIndex m = int (length (inputs m))" and "is_enter k"
  shows "Update m (KeyMsg k) =
           Some (m\<lparr>droplet := Some \<lparr>Name = ''web-001'', Region = ''nyc3'', Size = ''s-1vcpu-1gb'',
                                    Image = \<lparr>ID = 0, Slug = ''ubuntu-20-04-x64''\<rparr>\<rparr>,
                   creating := True\<rparr>,
                 Some (BatchCmd
                   [Some (dropletCreateCmd \<lparr>Name = ''web-001'', Region = ''nyc3'', Size = ''s-1vcpu-1gb'',
                                      Image = \<lparr>ID = 0, Slug = ''ubuntu-20-04-x64''\<rparr>\<rparr>),
                    Some spinner_Tick]))"
proof -
  from assms(2) obtain a b c d where ts: "inputs m = [a, b, c, d]"
    by auto
  from reachable_placeholders [OF assms(1)] assms(2)
  have "setDropletCreate (inputs m) =
          Some \<lparr>Name = ''web-001'', Region = ''nyc3'', Size = ''s-1vcpu-1gb'',
                Image = \<lparr>ID = 0, Slug = ''ubuntu-20-04-x64''\<rparr>\<rparr>"
    by (simp add: ts setDropletCreate_def Atoi_ubuntu)
  with Update_submit [OF assms(4,3)] show ?thesis by simp
qed

theorem empty_form_submits_placeholders_witness:
  "reachable at_button
   \<and> map Value (inputs at_button) = ['''', '''', '''', '''']
   \<and> focusIndex at_button = int (length (inputs at_button))
   \<and> is_enter KeyEnter
   \<and> Update at_button (KeyMsg KeyEnter) =
       Some (at_button\<lparr>droplet := Some \<lparr>Name = ''web-001'', Region = ''nyc3'',
                                         Size = ''s-1vcpu-1gb'',
                                         Image = \<lparr>ID = 0, Slug = ''ubuntu-20-04-x64''\<rparr>\<rparr>,
                        creating := True\<rparr>,
             Some (BatchCmd
               [Some (dropletCreateCmd \<lparr>Name = ''web-001'', Region = ''nyc3'', Size = ''s-1vcpu-1gb'',
                                  Image = \<lparr>ID = 0, Slug = ''ubuntu-20-04-x64''\<rparr>\<rparr>),
                Some spinner_Tick]))"
proof -
  have v: "map Value (inputs at_button) = ['''', '''', '''', '''']"
    by (simp add: at_button_def blurred_input_def initial_input_def textinput_NewModel_def
        Focus_def)
  have f: "focusIndex at_button = int (length (inputs at_button))"
    by (simp add: at_button_def)
  have e: "is_enter KeyEnter"
    by (simp add: is_enter_def)
  show ?thesis
    by (rule conjI [OF reachable_at_button conjI [OF v conjI [OF f conjI [OF e
          empty_form_submits_placeholders [OF reachable_at_button v f e]]]]])
qed

text \<open>
  Claim C4. The image of the request is decided by \<open>strconv.Atoi\<close> on the resolved image
  string: when it parses, the image is the numeric identifier \<open>Atoi\<close> returns, which is
  the base-10 value of the string, and the slug is empty; when it does not, the image is
  the string itself as a slug. \<open>Atoi\<close> parses exactly the decimal literals whose value is
  in the range of \<open>int\<close>. \<open>12345\<close> parses to 12345, \<open>ubuntu-20-04-x64\<close> does not
  parse.
\<close>

theorem image_by_number_or_slug:
  "(4 \<le> length ts \<longrightarrow>
      (\<exists>r. setDropletCreate ts = Some r
         \<and> (case Atoi (resolved_value (ts ! 3)) of
              Some i \<Rightarrow> Image r = \<lparr>ID = i, Slug = ''''\<rparr>
                        \<and> i = signed_base10_value (resolved_value (ts ! 3))
            | None \<Rightarrow> Image r = \<lparr>ID = 0, Slug = resolved_value (ts ! 3)\<rparr>)))
   \<and> (Atoi s = Some i \<longleftrightarrow>
        decimal_literal s \<and> i = signed_base10_value s \<and> - (2 ^ 63) \<le> i \<and> i \<le> 2 ^ 63 - 1)
   \<and> Atoi ''12345'' = Some 12345
   \<and> Atoi ''ubuntu-20-04-x64'' = None"
proof -
  have "4 \<le> length ts \<longrightarrow>
      (\<exists>r. setDropletCreate ts = Some r
         \<and> (case Atoi (resolved_value (ts ! 3)) of
              Some i \<Rightarrow> Image r = \<lparr>ID = i, Slug = ''''\<rparr>
                        \<and> i = signed_base10_value (resolved_value (ts ! 3))
            | None \<Rightarrow> Image r = \<lparr>ID = 0, Slug = resolved_value (ts ! 3)\<rparr>))"
    by (auto simp: setDropletCreate_resolved dest: Atoi_value split: option.splits)
  with Atoi_Some_iff [of s i] Atoi_12345 Atoi_ubuntu show ?thesis
    by blast
qed

theorem image_by_number_or_slug_witness:
  "(\<exists>r. setDropletCreate (inputs initialModel) = Some r
      \<and> Image r = \<lparr>ID = 0, Slug = ''ubuntu-20-04-x64''\<rparr>)
   \<and> (\<exists>r. setDropletCreate (map (\<lambda>t. t\<lparr>Value := ''12345''\<rparr>) (inputs initialModel)) = Some r
      \<and> Image r = \<lparr>ID = 12345, Slug = ''''\<rparr>)"
  using image_by_number_or_slug [of "inputs initialModel"]
    image_by_number_or_slug [of "map (\<lambda>t. t\<lparr>Value := ''12345''\<rparr>) (inputs initialModel)"]
  by (auto simp: initialModel_def initial_input_def textinput_NewModel_def Focus_def
      resolved_value_def setDropletCreate_def Let_def Atoi_def digit_val_def)

text \<open>
  Claim C5. \<open>setDropletCreate\<close> uses the resolved value of each input: name, region and
  size of the request are the resolved values of inputs 0, 1 and 2, and the image is
  built from the resolved value of input 3. The resolved value is the value when it is
  not empty and the placeholder when it is. Submitting leaves the inputs, and so every
  stored value, as they were.
\<close>

theorem resolved_values_are_used:
  "(4 \<le> length ts \<longrightarrow>
      (\<exists>r. setDropletCreate ts = Some r
         \<and> Name r = resolved_value (ts ! 0)
         \<and> Region r = resolved_value (ts ! 1)
         \<and> Size r = resolved_value (ts ! 2)
         \<and> Image r = (case Atoi (resolved_value (ts ! 3)) of
                         None \<Rightarrow> \<lparr>ID = 0, Slug = resolved_value (ts ! 3)\<rparr>
                       | Some i \<Rightarrow> \<lparr>ID = i, Slug = ''''\<rparr>)))
   \<and> (Value t \<noteq> '''' \<longrightarrow> resolved_value t = Value t)
   \<and> (Value t = '''' \<longrightarrow> resolved_value t = Placeholder t)
   \<and> (is_enter k \<and> focusIndex m = int (length (inputs m)) \<and> Update m (KeyMsg k) = Some (m1, c)
        \<longrightarrow> inputs m1 = inputs m)"
proof -
  have "inputs m1 = inputs m"
    if "is_enter k" "focusIndex m = int (length (inputs m))" "Update m (KeyMsg k) = Some (m1, c)"
    using Update_submit [OF that(1,2)] that(3) by (auto split: option.splits)
  then show ?thesis
    by (auto simp: setDropletCreate_resolved resolved_value_def)
qed

theorem resolved_values_are_used_witness:
  "(\<exists>r. setDropletCreate (map (\<lambda>t. t\<lparr>Value := ''ams3''\<rparr>) (inputs initialModel)) = Some r
      \<and> Name r = ''ams3'' \<and> Region r = ''ams3'' \<and> Size r = ''ams3''
      \<and> Image r = \<lparr>ID = 0, Slug = ''ams3''\<rparr>)
   \<and> (\<exists>r. setDropletCreate (inputs at_button) = Some r
      \<and> Name r = ''web-001'' \<and> Region r = ''nyc3'' \<and> Size r = ''s-1vcpu-1gb'')
   \<and> (\<exists>m1 c. Update at_button (KeyMsg KeyEnter) = Some (m1, c) \<and> inputs m1 = inputs at_button)"
  using resolved_values_are_used [of "map (\<lambda>t. t\<lparr>Value := ''ams3''\<rparr>) (inputs initialModel)"
      "initial_input 0" KeyEnter at_button submitted
      "Some (BatchCmd [Some (dropletCreateCmd default_request), Some spinner_Tick])"]
    resolved_values_are_used [of "inputs at_button"
      "initial_input 0" KeyEnter at_button submitted
      "Some (BatchCmd [Some (dropletCreateCmd default_request), Some spinner_Tick])"]
    Update_at_button
  by (auto simp: initialModel_def initial_input_def textinput_NewModel_def Focus_def
      resolved_value_def at_button_def blurred_input_def is_enter_def setDropletCreate_def
      Let_def Atoi_def digit_val_def)

subsection \<open>The command dropletCreate\<close>

lemma dropletErrorMsg_nonempty: "dropletErrorMsg w e \<noteq> ''''"
  by (simp add: dropletErrorMsg_def)

lemma dropletErrorMsg_carries:
  "sublist (Render w placeholderStyle (Error e)) (dropletErrorMsg w e)"
  unfolding dropletErrorMsg_def by (metis append.assoc sublist_appendI)

lemma Update_dropletMsg:
  "Update m (dropletMsg s) = Some (m\<lparr>finalMsg := s\<rparr>, Some Quit)"
  by (simp add: Update_def)

text \<open>
  Claim C2. When \<open>DO_TOKEN\<close> is not set or is empty, \<open>dropletCreate\<close> makes no call to
  the client and returns the error message that asks for the token; \<open>Update\<close> stores that
  message in \<open>finalMsg\<close> and quits, and \<open>View\<close> shows it.
\<close>

theorem missing_token_fails_at_once:
  assumes "environ w ''DO_TOKEN'' = None \<or> environ w ''DO_TOKEN'' = Some ''''"
  shows "\<exists>msg. dropletCreate w req = ([], Some msg)
           \<and> msg = dropletErrorMsg w
                (errors_New ''set the 'DO_TOKEN' environment variable to a DigitalOcean API token'')
           \<and> sublist (Render w placeholderStyle
                ''set the 'DO_TOKEN' environment variable to a DigitalOcean API token'') msg
           \<and> Update m (dropletMsg msg) = Some (m\<lparr>finalMsg := msg\<rparr>, Some Quit)
           \<and> View_screen (m\<lparr>finalMsg := msg\<rparr>) = ShowsFinalMsg msg"
proof -
  from assms have "os_Getenv w ''DO_TOKEN'' = ''''"
    by (auto simp: os_Getenv_def)
  then have "dropletCreate w req = ([], Some (dropletErrorMsg w
      (errors_New ''set the 'DO_TOKEN' environment variable to a DigitalOcean API token'')))"
    by (simp add: dropletCreate_def)
  moreover have "sublist (Render w placeholderStyle
      ''set the 'DO_TOKEN' environment variable to a DigitalOcean API token'')
      (dropletErrorMsg w
      (errors_New ''set the 'DO_TOKEN' environment variable to a DigitalOcean API token''))"
    using dropletErrorMsg_carries [of w "errors_New ''set the 'DO_TOKEN' environment variable to a DigitalOcean API token''"]
    by (simp add: errors_New_def)
  ultimately show ?thesis
    by (simp add: Update_dropletMsg View_screen_def dropletErrorMsg_nonempty)
qed

theorem missing_token_fails_at_once_witness:
  "(\<exists>msg. dropletCreate (plain_world Map.empty good_client) default_request = ([], Some msg)
      \<and> sublist ''set the 'DO_TOKEN' environment variable to a DigitalOcean API token'' msg
      \<and> Update submitted (dropletMsg msg) = Some (submitted\<lparr>finalMsg := msg\<rparr>, Some Quit)
      \<and> View_screen (submitted\<lparr>finalMsg := msg\<rparr>) = ShowsFinalMsg msg)
   \<and> (\<exists>msg. dropletCreate (plain_world [''DO_TOKEN'' \<mapsto> ''''] good_client) default_request
          = ([], Some msg))"
  using missing_token_fails_at_once [of "plain_world Map.empty good_client" default_request submitted]
    missing_token_fails_at_once [of "plain_world [''DO_TOKEN'' \<mapsto> ''''] good_client"
      default_request submitted]
  by (simp add: plain_world_def)

subsection \<open>Keys while the request is out\<close>

lemma View_screen_spinner: "View_screen m = ShowsSpinner \<longleftrightarrow> finalMsg m = '''' \<and> creating m"
  by (simp add: View_screen_def)

lemma form_inv_at_button_blurred:
  assumes "form_inv m" "focusIndex m = 4"
  shows "map (\<lambda>t. fst (textinput_Update msg t)) (inputs m) = inputs m"
proof -
  from assms have "map focus (inputs m) = [False, False, False, False]"
    by (simp add: form_inv_def)
  then have "\<forall>t \<in> set (inputs m). \<not> focus t"
    by (metis (no_types, lifting) imageI list.set_map set_ConsD empty_iff list.set(1))
  then show ?thesis
    by (simp add: textinput_Update_blurred map_idI)
qed

text \<open>
  \<open>Update\<close> does not look at \<open>creating\<close>. After tab, tab, tab, tab, enter from the
  initial model the form shows the spinner and one request is dispatched. A second enter
  then returns the same model with a second \<open>dropletCreate\<close> command for the same
  request, and tab moves \<open>focusIndex\<close> from 4 to 0: keys other than the cancel keys do
  have effects while the form is submitting.
\<close>

theorem second_enter_dispatches_again:
  "run initialModel (to_button @ [KeyMsg KeyEnter]) =
     Some (submitted,
           [Some (BatchCmd [None, Some Blink, None, None]),
            Some (BatchCmd [None, None, Some Blink, None]),
            Some (BatchCmd [None, None, None, Some Blink]),
            Some (BatchCmd [None, None, None, None]),
            Some (BatchCmd [Some (dropletCreateCmd default_request), Some spinner_Tick])])
   \<and> View_screen submitted = ShowsSpinner
   \<and> \<not> is_cancel KeyEnter
   \<and> Update submitted (KeyMsg KeyEnter) =
       Some (submitted, Some (BatchCmd [Some (dropletCreateCmd default_request), Some spinner_Tick]))
   \<and> dispatched (Some (BatchCmd [Some (dropletCreateCmd default_request), Some spinner_Tick]))
       = [default_request]
   \<and> \<not> is_cancel KeyTab
   \<and> focusIndex submitted = 4
   \<and> (\<exists>m1 c. Update submitted (KeyMsg KeyTab) = Some (m1, c) \<and> focusIndex m1 = 0)"
  by (simp add: to_button_def submitted_def at_button_def Update_def initialModel_def
      initial_input_def textinput_NewModel_def Focus_def Blur_def blurred_input_def
      tea_Batch_def cursorStyle_def noStyle_def focusedStyle_def placeholderStyle_def
      setDropletCreate_def default_request_def Atoi_def digit_val_def View_screen_def
      is_cancel_def dispatched_def)

lemma submitting_key_cases:
  assumes "reachable m" and "View_screen m = ShowsSpinner"
  shows "\<exists>m1 c. Update m (KeyMsg k) = Some (m1, c)
           \<and> View_screen m1 = ShowsSpinner
           \<and> (is_enter k \<and> focusIndex m = 4 \<longrightarrow>
                (\<exists>d. setDropletCreate (inputs m) = Some d \<and> dispatched c = [d]
                   \<and> m1 = m\<lparr>droplet := Some d\<rparr>))
           \<and> (\<not> (is_enter k \<and> focusIndex m = 4) \<longrightarrow> dispatched c = [])
           \<and> (focusIndex m = 4 \<and> \<not> is_cancel k \<and> \<not> is_enter k \<and> \<not> is_advance k
                \<and> \<not> is_retreat k \<longrightarrow> m1 = m
                \<and> c = Some (BatchCmd [Some (BatchCmd [None, None, None, None]), None]))"
proof -
  from assms(1) have inv: "form_inv m" by (rule reachable_form_inv)
  then have len: "length (inputs m) = 4" by (simp add: form_inv_def)
  from assms(2) have fin: "finalMsg m = ''''" and cr: "creating m"
    by (simp_all add: View_screen_spinner)
  show ?thesis
  proof (cases rule: key_cases [where k = k and m = m])
    case cancel
    then have "\<not> is_enter k" "\<not> is_advance k" "\<not> is_retreat k"
      by (auto simp: is_cancel_def is_enter_def is_advance_def is_retreat_def)
    with cancel assms(2) show ?thesis
      by (simp add: Update_cancel dispatched_def)
  next
    case submit
    from setDropletCreate_total [OF len] obtain d where d: "setDropletCreate (inputs m) = Some d" ..
    with submit have u: "Update m (KeyMsg k) =
        Some (m\<lparr>droplet := Some d, creating := True\<rparr>,
              Some (BatchCmd [Some (dropletCreateCmd d), Some spinner_Tick]))"
      by (simp add: Update_submit)
    from cr have same: "m\<lparr>droplet := Some d, creating := True\<rparr> = m\<lparr>droplet := Some d\<rparr>"
      by simp
    have v: "View_screen (m\<lparr>droplet := Some d\<rparr>) = ShowsSpinner"
      using fin cr by (simp add: View_screen_def)
    have t: "dispatched (Some (BatchCmd [Some (dropletCreateCmd d), Some spinner_Tick])) = [d]"
      by (simp add: dispatched_def)
    from submit(2) len have f4: "focusIndex m = 4" by simp
    from u same v t d submit(1) f4 show ?thesis
      by (simp add: enter_not_other)
  next
    case move
    from move(2) len have ns: "\<not> (is_enter k \<and> focusIndex m = 4)" by simp
    from Update_move_inv [OF inv move(1) ns]
    obtain m1 c where u: "Update m (KeyMsg k) = Some (m1, c)" and d: "dispatched c = []"
      and f: "creating m1 = creating m" "finalMsg m1 = finalMsg m"
      by blast
    from f fin cr have "View_screen m1 = ShowsSpinner" by (simp add: View_screen_def)
    with u d ns move(1) show ?thesis by auto
  next
    case other
    from len obtain a b c d where "inputs m = [a, b, c, d]"
      using list4 by blast
    then have nils: "tea_Batch (map (\<lambda>t. None) (inputs m)) = Some (BatchCmd [None, None, None, None])"
      by (simp add: tea_Batch_def)
    from other have u: "Update m (KeyMsg k) =
        Some (m\<lparr>inputs := map (\<lambda>t. fst (textinput_Update (KeyMsg k) t)) (inputs m)\<rparr>,
              Some (BatchCmd [Some (BatchCmd [None, None, None, None]), None]))"
      by (simp add: Update_other_key update_rest_key nils)
    have v: "View_screen (m\<lparr>inputs := map (\<lambda>t. fst (textinput_Update (KeyMsg k) t)) (inputs m)\<rparr>)
             = ShowsSpinner"
      using fin cr by (simp add: View_screen_def)
    have same: "m\<lparr>inputs := map (\<lambda>t. fst (textinput_Update (KeyMsg k) t)) (inputs m)\<rparr> = m"
      if "focusIndex m = 4"
      using form_inv_at_button_blurred [OF inv that, of "KeyMsg k"] by simp
    from u v same other show ?thesis
      by (auto simp: dispatched_def)
  qed
qed

lemma Update_ignores_creating:
  "Update (m\<lparr>creating := True\<rparr>) (KeyMsg k) =
     map_option (\<lambda>(m1, c). (m1\<lparr>creating := True\<rparr>, c)) (Update (m\<lparr>creating := b\<rparr>) (KeyMsg k))"
  by (auto simp: Update_def update_rest_def updateInputs_def spinner_Update_def Let_def
      split_def split: option.splits)

lemma Update_key_finalMsg: "Update m (KeyMsg k) = Some (m1, c) \<Longrightarrow> finalMsg m1 = finalMsg m"
  by (auto simp: Update_def update_rest_def updateInputs_def spinner_Update_def Let_def
      split_def split: option.splits if_splits)

text \<open>
  Claim C1, as the code has it. While a reachable form shows the spinner, every key
  press is handled, and handled as in the same form while editing (the same model with
  \<open>creating\<close> unset, which shows the form): \<open>Update\<close> returns the same command and the
  same model but for \<open>creating\<close>, which stays set, so the spinner keeps showing. So the
  focus keys still move the focus: advance sets \<open>focusIndex\<close> to
  \<open>(focusIndex + 1) mod 5\<close> and retreat to \<open>(focusIndex - 1 + 5) mod 5\<close>. A request is
  dispatched exactly when the key is enter and the focus is on the create button (where
  it is when the form has just been submitted): then one more request, built from the
  inputs as they are, is dispatched and nothing but \<open>droplet\<close> is assigned. Any other key
  dispatches nothing. With the focus on the button, a key that is neither cancel nor
  enter nor a focus key leaves the model as it is, and the command returned for it is a
  batch of \<open>nil\<close> commands only.
\<close>

theorem keys_while_submitting:
  assumes "reachable m" and "View_screen m = ShowsSpinner"
  shows "\<exists>m1 c. Update m (KeyMsg k) = Some (m1, c)
           \<and> View_screen (m\<lparr>creating := False\<rparr>) = ShowsForm
           \<and> (\<exists>e1. Update (m\<lparr>creating := False\<rparr>) (KeyMsg k) = Some (e1, c)
                  \<and> m1 = e1\<lparr>creating := True\<rparr>)
           \<and> View_screen m1 = ShowsSpinner
           \<and> (is_advance k \<longrightarrow> focusIndex m1 = (focusIndex m + 1) mod 5)
           \<and> (is_retreat k \<longrightarrow> focusIndex m1 = (focusIndex m - 1 + 5) mod 5)
           \<and> (is_enter k \<and> focusIndex m = 4 \<longrightarrow>
                (\<exists>d. setDropletCreate (inputs m) = Some d \<and> dispatched c = [d]
                   \<and> m1 = m\<lparr>droplet := Some d\<rparr>))
           \<and> (\<not> (is_enter k \<and> focusIndex m = 4) \<longrightarrow> dispatched c = [])
           \<and> (focusIndex m = 4 \<and> \<not> is_cancel k \<and> \<not> is_enter k \<and> \<not> is_advance k
                \<and> \<not> is_retreat k \<longrightarrow> m1 = m
                \<and> c = Some (BatchCmd [Some (BatchCmd [None, None, None, None]), None]))"
proof -
  from assms(1) have inv: "form_inv m" by (rule reachable_form_inv)
  from assms(2) have fin: "finalMsg m = ''''" and cr: "creating m"
    by (simp_all add: View_screen_spinner)
  from cr have same: "m\<lparr>creating := True\<rparr> = m" by simp
  from submitting_key_cases [OF assms, of k]
  obtain m1 c where u: "Update m (KeyMsg k) = Some (m1, c)"
    and v: "View_screen m1 = ShowsSpinner"
    and sub: "is_enter k \<and> focusIndex m = 4 \<longrightarrow>
                (\<exists>d. setDropletCreate (inputs m) = Some d \<and> dispatched c = [d]
                   \<and> m1 = m\<lparr>droplet := Some d\<rparr>)"
    and nosub: "\<not> (is_enter k \<and> focusIndex m = 4) \<longrightarrow> dispatched c = []"
    and other: "focusIndex m = 4 \<and> \<not> is_cancel k \<and> \<not> is_enter k \<and> \<not> is_advance k
                \<and> \<not> is_retreat k \<longrightarrow> m1 = m
                \<and> c = Some (BatchCmd [Some (BatchCmd [None, None, None, None]), None])"
    by blast
  have form: "View_screen (m\<lparr>creating := False\<rparr>) = ShowsForm"
    using fin by (simp add: View_screen_def)
  from Update_ignores_creating [of m k False] same u
  have "map_option (\<lambda>(m1, c). (m1\<lparr>creating := True\<rparr>, c))
          (Update (m\<lparr>creating := False\<rparr>) (KeyMsg k)) = Some (m1, c)"
    by simp
  then have ed: "\<exists>e1. Update (m\<lparr>creating := False\<rparr>) (KeyMsg k) = Some (e1, c)
                  \<and> m1 = e1\<lparr>creating := True\<rparr>"
    by auto
  have adv: "focusIndex m1 = (focusIndex m + 1) mod 5" if "is_advance k"
    using Update_move_inv [OF inv, of k] that advance_not_other [OF that] u by auto
  have ret: "focusIndex m1 = (focusIndex m - 1 + 5) mod 5" if "is_retreat k"
    using Update_move_inv [OF inv, of k] that retreat_not_other [OF that] u by auto
  from u form ed v adv ret sub nosub other show ?thesis
    by blast
qed

theorem keys_while_submitting_witness:
  "reachable submitted \<and> View_screen submitted = ShowsSpinner
   \<and> Update submitted (KeyMsg (KeyRunes ''x''))
       = Some (submitted, Some (BatchCmd [Some (BatchCmd [None, None, None, None]), None]))
   \<and> (\<exists>m1 c. Update submitted (KeyMsg KeyEnter) = Some (m1, c)
         \<and> View_screen m1 = ShowsSpinner \<and> dispatched c = [default_request])
   \<and> (\<exists>m1 c. Update submitted (KeyMsg KeyTab) = Some (m1, c)
         \<and> View_screen m1 = ShowsSpinner \<and> focusIndex m1 = 0 \<and> dispatched c = [])"
proof -
  have v: "View_screen submitted = ShowsSpinner"
    by (simp add: View_screen_def submitted_def at_button_def initialModel_def)
  have f: "focusIndex submitted = 4"
    by (simp add: submitted_def at_button_def)
  have s: "setDropletCreate (inputs submitted) = Some default_request"
    by (simp add: submitted_def at_button_def blurred_input_def initial_input_def
        textinput_NewModel_def Focus_def setDropletCreate_def default_request_def
        Atoi_def digit_val_def)
  have x: "\<not> is_cancel (KeyRunes ''x'') \<and> \<not> is_enter (KeyRunes ''x'')
           \<and> \<not> is_advance (KeyRunes ''x'') \<and> \<not> is_retreat (KeyRunes ''x'')"
    by (simp add: is_cancel_def is_enter_def is_advance_def is_retreat_def)
  have e: "is_enter KeyEnter" by (simp add: is_enter_def)
  have t: "is_advance KeyTab \<and> \<not> is_enter KeyTab"
    by (simp add: is_advance_def is_enter_def)
  from keys_while_submitting [OF reachable_submitted v, of "KeyRunes ''x''"] f x
  have a: "Update submitted (KeyMsg (KeyRunes ''x''))
       = Some (submitted, Some (BatchCmd [Some (BatchCmd [None, None, None, None]), None]))"
    by auto
  from keys_while_submitting [OF reachable_submitted v, of KeyEnter] f e s
  have b: "\<exists>m1 c. Update submitted (KeyMsg KeyEnter) = Some (m1, c)
         \<and> View_screen m1 = ShowsSpinner \<and> dispatched c = [default_request]"
    by auto
  from keys_while_submitting [OF reachable_submitted v, of KeyTab] f t
  have c: "\<exists>m1 c. Update submitted (KeyMsg KeyTab) = Some (m1, c)
         \<and> View_screen m1 = ShowsSpinner \<and> focusIndex m1 = 0 \<and> dispatched c = []"
    by auto
  from reachable_submitted v a b c show ?thesis by blast
qed

subsection \<open>The message of dropletCreate\<close>

lemma success_text_nonempty: "success_text w name sz rg pub priv \<noteq> ''''"
  by (simp add: success_text_def success_prefix_def)

lemma success_text_carries:
  "sublist (Render w placeholderStyle name) (success_text w name sz rg pub priv)"
  "sublist (Render w placeholderStyle (Sprintf_price w (PriceMonthly sz)))
     (success_text w name sz rg pub priv)"
  "sublist (Render w placeholderStyle (Region_Name rg)) (success_text w name sz rg pub priv)"
  "sublist (Render w placeholderStyle (Size_Slug sz)) (success_text w name sz rg pub priv)"
  "sublist (Render w placeholderStyle pub) (success_text w name sz rg pub priv)"
  "sublist (Render w placeholderStyle priv) (success_text w name sz rg pub priv)"
proof -
  let ?R = "Render w"
  let ?nl = "''\<newline>''"
  define a where "a = success_prefix @ ?R focusedStyle ''Success!'' @ ''\<newline>\<newline>''
     @ ?R focusedStyle ''Name:'' @ '' ''"
  define b where "b = ?nl @ ?R focusedStyle ''Price Monthly:'' @ '' ''"
  define c where "c = ?nl @ ?R focusedStyle ''Region:'' @ '' ''"
  define d where "d = ?nl @ ?R focusedStyle ''Size:'' @ '' ''"
  define e where "e = ?nl @ ?R focusedStyle ''Public IPv4:'' @ '' ''"
  define f where "f = ?nl @ ?R focusedStyle ''Private IPv4:'' @ '' ''"
  define g where "g = ''\<newline>\<newline>''"
  have eq: "success_text w name sz rg pub priv =
      a @ ?R placeholderStyle name @ b @ ?R placeholderStyle (Sprintf_price w (PriceMonthly sz))
      @ c @ ?R placeholderStyle (Region_Name rg) @ d @ ?R placeholderStyle (Size_Slug sz)
      @ e @ ?R placeholderStyle pub @ f @ ?R placeholderStyle priv @ g"
    by (simp add: success_text_def a_def b_def c_def d_def e_def f_def g_def)
  show "sublist (?R placeholderStyle name) (success_text w name sz rg pub priv)"
    unfolding eq by (rule sublist_appendI)
  have "sublist (?R placeholderStyle (Sprintf_price w (PriceMonthly sz)))
      ((a @ ?R placeholderStyle name @ b) @ ?R placeholderStyle (Sprintf_price w (PriceMonthly sz))
      @ c @ ?R placeholderStyle (Region_Name rg) @ d @ ?R placeholderStyle (Size_Slug sz)
      @ e @ ?R placeholderStyle pub @ f @ ?R placeholderStyle priv @ g)"
    by (rule sublist_appendI)
  then show "sublist (?R placeholderStyle (Sprintf_price w (PriceMonthly sz)))
      (success_text w name sz rg pub priv)"
    unfolding eq by simp
  have "sublist (?R placeholderStyle (Region_Name rg))
      ((a @ ?R placeholderStyle name @ b @ ?R placeholderStyle (Sprintf_price w (PriceMonthly sz))
      @ c) @ ?R placeholderStyle (Region_Name rg) @ d @ ?R placeholderStyle (Size_Slug sz)
      @ e @ ?R placeholderStyle pub @ f @ ?R placeholderStyle priv @ g)"
    by (rule sublist_appendI)
  then show "sublist (?R placeholderStyle (Region_Name rg)) (success_text w name sz rg pub priv)"
    unfolding eq by simp
  have "sublist (?R placeholderStyle (Size_Slug sz))
      ((a @ ?R placeholderStyle name @ b @ ?R placeholderStyle (Sprintf_price w (PriceMonthly sz))
      @ c @ ?R placeholderStyle (Region_Name rg) @ d) @ ?R placeholderStyle (Size_Slug sz)
      @ e @ ?R placeholderStyle pub @ f @ ?R placeholderStyle priv @ g)"
    by (rule sublist_appendI)
  then show "sublist (?R placeholderStyle (Size_Slug sz)) (success_text w name sz rg pub priv)"
    unfolding eq by simp
  have "sublist (?R placeholderStyle pub)
      ((a @ ?R placeholderStyle name @ b @ ?R placeholderStyle (Sprintf_price w (PriceMonthly sz))
      @ c @ ?R placeholderStyle (Region_Name rg) @ d @ ?R placeholderStyle (Size_Slug sz)
      @ e) @ ?R placeholderStyle pub @ f @ ?R placeholderStyle priv @ g)"
    by (rule sublist_appendI)
  then show "sublist (?R placeholderStyle pub) (success_text w name sz rg pub priv)"
    unfolding eq by simp
  have "sublist (?R placeholderStyle priv)
      ((a @ ?R placeholderStyle name @ b @ ?R placeholderStyle (Sprintf_price w (PriceMonthly sz))
      @ c @ ?R placeholderStyle (Region_Name rg) @ d @ ?R placeholderStyle (Size_Slug sz)
      @ e @ ?R placeholderStyle pub @ f) @ ?R placeholderStyle priv @ g)"
    by (rule sublist_appendI)
  then show "sublist (?R placeholderStyle priv) (success_text w name sz rg pub priv)"
    unfolding eq by simp
qed

lemma dropletCreate_msg_nonempty: "snd (dropletCreate w req) = Some msg \<Longrightarrow> msg \<noteq> ''''"
  by (auto simp: dropletCreate_def Let_def dropletErrorMsg_nonempty success_text_nonempty
      split: if_splits option.splits prod.splits call.splits)

lemma emits_and_stores_iff:
  "emits_and_stores w req m msg \<longleftrightarrow> snd (dropletCreate w req) = Some msg"
  using dropletCreate_msg_nonempty [of w req msg]
  by (auto simp: emits_and_stores_def Update_dropletMsg View_screen_def)

lemma dropletCreate_total:
  "complete_replies w req \<Longrightarrow> \<exists>msg. snd (dropletCreate w req) = Some msg"
proof (cases "os_Getenv w ''DO_TOKEN'' = ''''")
  case True
  then show ?thesis by (simp add: dropletCreate_def)
next
  case tok: False
  assume c: "complete_replies w req"
  let ?c = "NewFromToken w (os_Getenv w ''DO_TOKEN'')"
  from c tok obtain created resp err
    where cr: "Droplets_Create ?c req = Returns (created, resp, err)"
    by (auto simp: complete_replies_def Let_def split: call.splits)
  show ?thesis
  proof (cases err)
    case (Some e)
    with tok cr show ?thesis by (simp add: dropletCreate_def)
  next
    case None
    with c tok cr obtain href d0 where h: "first_action_HREF resp = Some href"
      and d0: "created = Some d0"
      and wa: "case WaitForActive ?c href of
                 No_return \<Rightarrow> False
               | Returns (Some e) \<Rightarrow> True
               | Returns None \<Rightarrow>
                   (case Droplets_Get ?c (Droplet_ID d0) of
                      No_return \<Rightarrow> False
                    | Returns (fetched, err) \<Rightarrow>
                        err \<noteq> None \<or>
                        (case fetched of
                           None \<Rightarrow> False
                         | Some d \<Rightarrow> Droplet_Size d \<noteq> None \<and> Droplet_Region d \<noteq> None))"
      by (auto simp: complete_replies_def Let_def split: option.splits)
    from wa obtain r where r: "WaitForActive ?c href = Returns r"
      by (cases "WaitForActive ?c href") auto
    show ?thesis
    proof (cases r)
      case (Some e)
      with tok cr None h r show ?thesis by (simp add: dropletCreate_def)
    next
      case wn: None
      with wa r obtain fetched err2
        where g: "Droplets_Get ?c (Droplet_ID d0) = Returns (fetched, err2)"
        and g2: "err2 \<noteq> None \<or>
                 (case fetched of
                    None \<Rightarrow> False
                  | Some d \<Rightarrow> Droplet_Size d \<noteq> None \<and> Droplet_Region d \<noteq> None)"
        by (auto split: call.splits)
      from g2 tok cr None h r wn d0 g show ?thesis
        by (auto simp: dropletCreate_def Let_def split: option.splits prod.splits)
    qed
  qed
qed

lemma keeps_text_sublist:
  "keeps_text w s \<Longrightarrow> sublist (Render w placeholderStyle s) msg \<Longrightarrow> sublist s msg"
  unfolding keeps_text_def by (rule sublist_order.order.trans)

text \<open>
  A create that returns no error and a response that lists no actions: line 215 indexes
  the empty list, the command panics after its one call and returns no message. A get
  that returns a droplet without a size: line 236 follows the \<open>nil\<close> pointer, and the
  command panics after its three calls. And a wait that does not return: the command
  does not get past line 215.
\<close>

theorem incomplete_reply_panics:
  "os_Getenv (plain_world [''DO_TOKEN'' \<mapsto> ''t''] no_actions_client) ''DO_TOKEN'' = ''t''
   \<and> Droplets_Create no_actions_client default_request
       = Returns (Some example_droplet, Some \<lparr>Response_Links = Some \<lparr>Actions = []\<rparr>\<rparr>, None)
   \<and> dropletCreate (plain_world [''DO_TOKEN'' \<mapsto> ''t''] no_actions_client) default_request
       = ([CallCreate default_request], None)
   \<and> Droplets_Get no_size_client 1
       = Returns (Some (example_droplet\<lparr>Droplet_Size := None\<rparr>), None)
   \<and> dropletCreate (plain_world [''DO_TOKEN'' \<mapsto> ''t''] no_size_client) default_request
       = ([CallCreate default_request, CallWaitForActive ''/v2/actions/7'', CallGet 1], None)
   \<and> WaitForActive stuck_client ''/v2/actions/7'' = No_return
   \<and> dropletCreate (plain_world [''DO_TOKEN'' \<mapsto> ''t''] stuck_client) default_request
       = ([CallCreate default_request, CallWaitForActive ''/v2/actions/7''], None)"
  by (simp add: dropletCreate_def os_Getenv_def plain_world_def no_actions_client_def
      no_size_client_def stuck_client_def good_client_def example_droplet_def
      first_action_HREF_def)

text \<open>
  Claim C8, as the code has it. When the replies of the client are complete (its calls
  return; a create without error brings a droplet and an action link, a get without
  error a droplet with size and region), a run of \<open>dropletCreate\<close> emits one message and
  the form takes it. With a token: if create, or the wait for the first action, or get,
  or the public or the private address returns an error, the message is
  \<open>dropletErrorMsg\<close> of that error, stored and shown: the form has failed; if all of
  them succeed, the message is the success text, stored and shown: the form has
  succeeded. The error message contains the rendered description of the error, and the
  success text the rendered name, monthly price (as \<open>$%.2f\<close> prints it), region name,
  size slug, public address and private address of the fetched droplet; each of these
  texts is itself in the message when the rendering keeps it.
\<close>

theorem one_terminal_event:
  assumes "client = NewFromToken w (os_Getenv w ''DO_TOKEN'')"
  shows
    "(complete_replies w req \<longrightarrow> (\<exists>msg. emits_and_stores w req m msg))
     \<and> (os_Getenv w ''DO_TOKEN'' \<noteq> '''' \<longrightarrow>
          (Droplets_Create client req = Returns (created, resp, Some e) \<longrightarrow>
             emits_and_stores w req m (dropletErrorMsg w e))
          \<and> (Droplets_Create client req = Returns (created, resp, None)
               \<and> first_action_HREF resp = Some href
               \<and> WaitForActive client href = Returns (Some e) \<longrightarrow>
             emits_and_stores w req m (dropletErrorMsg w e))
          \<and> (Droplets_Create client req = Returns (Some d0, resp, None)
               \<and> first_action_HREF resp = Some href
               \<and> WaitForActive client href = Returns None
               \<and> Droplets_Get client (Droplet_ID d0) = Returns (fetched, Some e) \<longrightarrow>
             emits_and_stores w req m (dropletErrorMsg w e))
          \<and> (Droplets_Create client req = Returns (Some d0, resp, None)
               \<and> first_action_HREF resp = Some href
               \<and> WaitForActive client href = Returns None
               \<and> Droplets_Get client (Droplet_ID d0) = Returns (Some d, None)
               \<and> PublicIPv4 d = (pub, Some e) \<longrightarrow>
             emits_and_stores w req m (dropletErrorMsg w e))
          \<and> (Droplets_Create client req = Returns (Some d0, resp, None)
               \<and> first_action_HREF resp = Some href
               \<and> WaitForActive client href = Returns None
               \<and> Droplets_Get client (Droplet_ID d0) = Returns (Some d, None)
               \<and> PublicIPv4 d = (pub, None)
               \<and> PrivateIPv4 d = (priv, Some e) \<longrightarrow>
             emits_and_stores w req m (dropletErrorMsg w e))
          \<and> (Droplets_Create client req = Returns (Some d0, resp, None)
               \<and> first_action_HREF resp = Some href
               \<and> WaitForActive client href = Returns None
               \<and> Droplets_Get client (Droplet_ID d0) = Returns (Some d, None)
               \<and> PublicIPv4 d = (pub, None)
               \<and> PrivateIPv4 d = (priv, None)
               \<and> Droplet_Size d = Some sz \<and> Droplet_Region d = Some rg \<longrightarrow>
             emits_and_stores w req m (success_text w (Droplet_Name d) sz rg pub priv)))
     \<and> sublist (Render w placeholderStyle (Error e)) (dropletErrorMsg w e)
     \<and> (keeps_text w (Error e) \<longrightarrow> sublist (Error e) (dropletErrorMsg w e))
     \<and> (\<forall>s \<in> set [name, Sprintf_price w (PriceMonthly sz), Region_Name rg, Size_Slug sz,
                     pub, priv].
           sublist (Render w placeholderStyle s) (success_text w name sz rg pub priv)
           \<and> (keeps_text w s \<longrightarrow> sublist s (success_text w name sz rg pub priv)))"
proof -
  have total: "complete_replies w req \<longrightarrow> (\<exists>msg. emits_and_stores w req m msg)"
    using dropletCreate_total [of w req] by (simp add: emits_and_stores_iff)
  have cases: "os_Getenv w ''DO_TOKEN'' \<noteq> '''' \<longrightarrow>
          (Droplets_Create client req = Returns (created, resp, Some e) \<longrightarrow>
             emits_and_stores w req m (dropletErrorMsg w e))
          \<and> (Droplets_Create client req = Returns (created, resp, None)
               \<and> first_action_HREF resp = Some href
               \<and> WaitForActive client href = Returns (Some e) \<longrightarrow>
             emits_and_stores w req m (dropletErrorMsg w e))
          \<and> (Droplets_Create client req = Returns (Some d0, resp, None)
               \<and> first_action_HREF resp = Some href
               \<and> WaitForActive client href = Returns None
               \<and> Droplets_Get client (Droplet_ID d0) = Returns (fetched, Some e) \<longrightarrow>
             emits_and_stores w req m (dropletErrorMsg w e))
          \<and> (Droplets_Create client req = Returns (Some d0, resp, None)
               \<and> first_action_HREF resp = Some href
               \<and> WaitForActive client href = Returns None
               \<and> Droplets_Get client (Droplet_ID d0) = Returns (Some d, None)
               \<and> PublicIPv4 d = (pub, Some e) \<longrightarrow>
             emits_and_stores w req m (dropletErrorMsg w e))
          \<and> (Droplets_Create client req = Returns (Some d0, resp, None)
               \<and> first_action_HREF resp = Some href
               \<and> WaitForActive client href = Returns None
               \<and> Droplets_Get client (Droplet_ID d0) = Returns (Some d, None)
               \<and> PublicIPv4 d = (pub, None)
               \<and> PrivateIPv4 d = (priv, Some e) \<longrightarrow>
             emits_and_stores w req m (dropletErrorMsg w e))
          \<and> (Droplets_Create client req = Returns (Some d0, resp, None)
               \<and> first_action_HREF resp = Some href
               \<and> WaitForActive client href = Returns None
               \<and> Droplets_Get client (Droplet_ID d0) = Returns (Some d, None)
               \<and> PublicIPv4 d = (pub, None)
               \<and> PrivateIPv4 d = (priv, None)
               \<and> Droplet_Size d = Some sz \<and> Droplet_Region d = Some rg \<longrightarrow>
             emits_and_stores w req m (success_text w (Droplet_Name d) sz rg pub priv))"
    using assms by (auto simp: emits_and_stores_iff dropletCreate_def Let_def)
  note err = dropletErrorMsg_carries [of w e]
  have kerr: "keeps_text w (Error e) \<longrightarrow> sublist (Error e) (dropletErrorMsg w e)"
    using keeps_text_sublist [OF _ err] by blast
  note st = success_text_carries [where w = w and name = name and sz = sz and rg = rg
      and pub = pub and priv = priv]
  have fields: "\<forall>s \<in> set [name, Sprintf_price w (PriceMonthly sz), Region_Name rg, Size_Slug sz,
                     pub, priv].
           sublist (Render w placeholderStyle s) (success_text w name sz rg pub priv)
           \<and> (keeps_text w s \<longrightarrow> sublist s (success_text w name sz rg pub priv))"
    using st keeps_text_sublist [of w _ "success_text w name sz rg pub priv"] by auto
  from total cases err kerr fields show ?thesis
    by blast
qed

theorem one_terminal_event_witness:
  "complete_replies (plain_world [''DO_TOKEN'' \<mapsto> ''t''] good_client) default_request
   \<and> emits_and_stores (plain_world [''DO_TOKEN'' \<mapsto> ''t''] good_client) default_request submitted
       (success_text (plain_world [''DO_TOKEN'' \<mapsto> ''t''] good_client) ''web-001''
          \<lparr>Size_Slug = ''s-1vcpu-1gb'', PriceMonthly = 0x4014000000000000\<rparr>
          \<lparr>Region_Name = ''New York 3''\<rparr> ''203.0.113.7'' ''10.0.0.7'')
   \<and> keeps_text (plain_world [''DO_TOKEN'' \<mapsto> ''t''] good_client) ''203.0.113.7''
   \<and> sublist ''203.0.113.7''
        (success_text (plain_world [''DO_TOKEN'' \<mapsto> ''t''] good_client) ''web-001''
          \<lparr>Size_Slug = ''s-1vcpu-1gb'', PriceMonthly = 0x4014000000000000\<rparr>
          \<lparr>Region_Name = ''New York 3''\<rparr> ''203.0.113.7'' ''10.0.0.7'')
   \<and> sublist ''$5.00''
        (success_text (plain_world [''DO_TOKEN'' \<mapsto> ''t''] good_client) ''web-001''
          \<lparr>Size_Slug = ''s-1vcpu-1gb'', PriceMonthly = 0x4014000000000000\<rparr>
          \<lparr>Region_Name = ''New York 3''\<rparr> ''203.0.113.7'' ''10.0.0.7'')
   \<and> emits_and_stores (plain_world [''DO_TOKEN'' \<mapsto> ''t''] failing_client) default_request
         submitted
         (dropletErrorMsg (plain_world [''DO_TOKEN'' \<mapsto> ''t''] failing_client)
            (Err ''422 unprocessable''))
   \<and> sublist ''422 unprocessable''
        (dropletErrorMsg (plain_world [''DO_TOKEN'' \<mapsto> ''t''] failing_client)
           (Err ''422 unprocessable''))"
proof -
  let ?w = "plain_world [''DO_TOKEN'' \<mapsto> ''t''] good_client"
  let ?f = "plain_world [''DO_TOKEN'' \<mapsto> ''t''] failing_client"
  let ?S = "\<lparr>Size_Slug = ''s-1vcpu-1gb'', PriceMonthly = 0x4014000000000000\<rparr>"
  let ?G = "\<lparr>Region_Name = ''New York 3''\<rparr>"
  have c: "complete_replies ?w default_request"
    by (simp add: complete_replies_def plain_world_def good_client_def example_droplet_def
        first_action_HREF_def os_Getenv_def)
  have k: "keeps_text ?w s" for s
    by (simp add: keeps_text_def plain_world_def)
  have kf: "keeps_text ?f s" for s
    by (simp add: keeps_text_def plain_world_def)
  have gw: "good_client = NewFromToken ?w (os_Getenv ?w ''DO_TOKEN'')"
    and gf: "failing_client = NewFromToken ?f (os_Getenv ?f ''DO_TOKEN'')"
    by (simp_all add: plain_world_def)
  have tw: "os_Getenv ?w ''DO_TOKEN'' \<noteq> ''''" and tf: "os_Getenv ?f ''DO_TOKEN'' \<noteq> ''''"
    by (simp_all add: plain_world_def os_Getenv_def)
  have cr: "Droplets_Create good_client default_request
      = Returns (Some example_droplet,
          Some \<lparr>Response_Links = Some \<lparr>Actions = [\<lparr>HREF = ''/v2/actions/7''\<rparr>]\<rparr>\<rparr>, None)"
    and hr: "first_action_HREF
        (Some \<lparr>Response_Links = Some \<lparr>Actions = [\<lparr>HREF = ''/v2/actions/7''\<rparr>]\<rparr>\<rparr>)
      = Some ''/v2/actions/7''"
    and wa: "WaitForActive good_client ''/v2/actions/7'' = Returns None"
    and ge: "Droplets_Get good_client (Droplet_ID example_droplet)
      = Returns (Some example_droplet, None)"
    and dr: "PublicIPv4 example_droplet = (''203.0.113.7'', None)"
      "PrivateIPv4 example_droplet = (''10.0.0.7'', None)"
      "Droplet_Size example_droplet = Some ?S" "Droplet_Region example_droplet = Some ?G"
      "Droplet_Name example_droplet = ''web-001''"
    by (simp_all add: good_client_def example_droplet_def first_action_HREF_def)
  have cf: "Droplets_Create failing_client default_request
      = Returns (None, None, Some (Err ''422 unprocessable''))"
    by (simp add: failing_client_def)
  note W = one_terminal_event [OF gw, where req = default_request and m = submitted
      and ?d0.0 = example_droplet
      and resp = "Some \<lparr>Response_Links = Some \<lparr>Actions = [\<lparr>HREF = ''/v2/actions/7''\<rparr>]\<rparr>\<rparr>"
      and href = "''/v2/actions/7''" and d = example_droplet and pub = "''203.0.113.7''"
      and priv = "''10.0.0.7''" and sz = ?S and rg = ?G and name = "''web-001''"]
  from W tw cr hr wa ge dr
  have a: "emits_and_stores ?w default_request submitted
      (success_text ?w ''web-001'' ?S ?G ''203.0.113.7'' ''10.0.0.7'')"
    by simp
  from W k have b: "sublist ''203.0.113.7''
      (success_text ?w ''web-001'' ?S ?G ''203.0.113.7'' ''10.0.0.7'')"
    by simp
  from W k [of "''$5.00''"] have p: "sublist ''$5.00''
      (success_text ?w ''web-001'' ?S ?G ''203.0.113.7'' ''10.0.0.7'')"
    by (simp add: plain_world_def)
  note F = one_terminal_event [OF gf, where req = default_request and m = submitted
      and created = None and resp = None and e = "Err ''422 unprocessable''"]
  from F tf cf have d: "emits_and_stores ?f default_request submitted
      (dropletErrorMsg ?f (Err ''422 unprocessable''))"
    by simp
  from F kf [of "''422 unprocessable''"] have g: "sublist ''422 unprocessable''
      (dropletErrorMsg ?f (Err ''422 unprocessable''))"
    by simp
  from c a k [of "''203.0.113.7''"] b p d g show ?thesis by blast
qed

end
